theory Spec2Isabelle
  imports Complex_Main
begin

section \<open>Spreadsheet cells and the values the scripts read\<close>

text \<open>
  A range read from the spreadsheet is a matrix of cell values: text, a number, a
  boolean or a date; an empty cell reads as the empty text. The flattener also tests
  cells against \<^verbatim>\<open>null\<close>, so the model keeps that value. Numbers of a sheet are
  binary64 values, a subset of the rationals; a date carries its time value, the
  milliseconds since the epoch. Text is a list of 8-bit code units.
\<close>

datatype cell = CStr string | CNum rat | CBool bool | CDate int | CNull

text \<open>The truth value of a cell in a condition (\<^verbatim>\<open>!timestampValue\<close>, \<^verbatim>\<open>v ? a : b\<close>).\<close>

fun truthy :: "cell \<Rightarrow> bool" where
  "truthy (CStr s) = (s \<noteq> [])"
| "truthy (CNum r) = (r \<noteq> 0)"
| "truthy (CBool b) = b"
| "truthy (CDate t) = True"
| "truthy CNull = False"

text \<open>
  A time value is an integer number of milliseconds, or \<^verbatim>\<open>NaN\<close> (here \<open>None\<close>) for an
  invalid date. \<^verbatim>\<open>new Date(v).getTime()\<close> copies the time value of a date, clips a
  number (beyond 8.64e15 ms it is \<^verbatim>\<open>NaN\<close>, otherwise it is truncated towards zero),
  converts a boolean or \<^verbatim>\<open>null\<close> to 1 or 0, and parses text. The text parser belongs
  to the platform and is a parameter: it yields \<open>None\<close> for text that is no date.
\<close>

type_synonym time_value = "int option"

definition timeClip :: "rat \<Rightarrow> time_value" where
  "timeClip r =
     (if \<bar>r\<bar> > 8640000000000000 then None
      else Some (if 0 \<le> r then \<lfloor>r\<rfloor> else \<lceil>r\<rceil>))"

fun getTime :: "(string \<Rightarrow> time_value) \<Rightarrow> cell \<Rightarrow> time_value" where
  "getTime parse (CDate t) = Some t"
| "getTime parse (CNum r) = timeClip r"
| "getTime parse (CBool b) = Some (if b then 1 else 0)"
| "getTime parse CNull = Some 0"
| "getTime parse (CStr s) = parse s"

text \<open>Comparisons of numbers: every comparison with \<^verbatim>\<open>NaN\<close> is false.\<close>

fun num_le :: "time_value \<Rightarrow> time_value \<Rightarrow> bool" where
  "num_le (Some a) (Some b) = (a \<le> b)"
| "num_le _ _ = False"

fun num_gt :: "time_value \<Rightarrow> time_value \<Rightarrow> bool" where
  "num_gt (Some a) (Some b) = (a > b)"
| "num_gt _ _ = False"

text \<open>\<^verbatim>\<open>xs.slice(a, b)\<close> for \<open>0 \<le> a \<le> b\<close>; like the source it stops at the end of the array.\<close>

definition slice :: "'a list \<Rightarrow> nat \<Rightarrow> nat \<Rightarrow> 'a list" where
  "slice xs a b = take (b - a) (drop a xs)"

section \<open>The flattening transform (\<^verbatim>\<open>flattenTransactionsAudit\<close>)\<close>

definition STATIC_COLS :: nat where "STATIC_COLS = 4"
definition AUDIT_GROUP_SIZE :: nat where "AUDIT_GROUP_SIZE = 17"
definition NUMBER_OF_GROUPS :: nat where "NUMBER_OF_GROUPS = 20"
definition EXPECTED_TOTAL_COLS :: nat where
  "EXPECTED_TOTAL_COLS = STATIC_COLS + (AUDIT_GROUP_SIZE * NUMBER_OF_GROUPS)"

text \<open>The local constant \<^verbatim>\<open>headers\<close> of the function.\<close>

definition auditHeaders :: "string list" where
  "auditHeaders =
    [''Timestamp'', ''Email Address'', ''Choose Request'', ''Date - Monday'', ''T Ref No.'',
     ''FIN-1 HOD signature Amend Amount & Description'',
     ''FIN-2 Checked by, Approved by, Prepared by'', ''FIN-3 Xero System bills'',
     ''FIN-4 Budget, Approval Request'',
     ''FIN-5 Debit Voucher, Business Unit (To tick)'', ''FIN-6 Bank Balance - Daily Update'',
     ''FIN-7 Cash Balance'', ''FIN-8 Daily Entry update in System'',
     ''FIN-9 Bank A/C, Bank Information for payment (Correct)'',
     ''FIN-10 Avoid of duplicating transfer (Accounting Bill only)'',
     ''FIN-11 Daily update Xero'',
     ''FIN-12 Description Accuracy'', ''FIN-13 Completion of Source Document'',
     ''FIN-14 Advance Form Compliance'', ''FIN-15 Accuracy of Amount'', ''T Remark'']"

text \<open>The test of the inner loop: \<^verbatim>\<open>cell === "" || cell === null\<close>.\<close>

definition isBlank :: "cell \<Rightarrow> bool" where
  "isBlank c = (c = CStr [] \<or> c = CNull)"

text \<open>
  The inner loop over the groups \<open>0, 1, ..., NUMBER_OF_GROUPS - 1\<close>; \<open>newRows\<close> is the
  array the source pushes to.
\<close>

fun groupLoop :: "cell list \<Rightarrow> cell list \<Rightarrow> nat list \<Rightarrow> cell list list \<Rightarrow> cell list list" where
  "groupLoop row staticData [] newRows = newRows"
| "groupLoop row staticData (grp # groups) newRows =
     (let startIndex = STATIC_COLS + (grp * AUDIT_GROUP_SIZE);
          endIndex = startIndex + AUDIT_GROUP_SIZE;
          auditGroupData = slice row startIndex endIndex
      in if list_all isBlank auditGroupData
         then groupLoop row staticData groups newRows
         else groupLoop row staticData groups (newRows @ [staticData @ auditGroupData]))"

text \<open>
  The outer loop over the source rows after the header row. Its state is the pair of
  \<open>newRows\<close> and \<open>newLastTimestamp\<close>; \<open>lastDate\<close> is fixed before the loop.
\<close>

fun rowLoop :: "(string \<Rightarrow> time_value) \<Rightarrow> time_value \<Rightarrow> cell list list
    \<Rightarrow> cell list list \<times> cell \<Rightarrow> cell list list \<times> cell" where
  "rowLoop parse lastDate [] st = st"
| "rowLoop parse lastDate (row # rows) (newRows, newLastTimestamp) =
     (if length row < EXPECTED_TOTAL_COLS then rowLoop parse lastDate rows (newRows, newLastTimestamp)
      else
        let timestampValue = row ! 0 in
        if \<not> truthy timestampValue then rowLoop parse lastDate rows (newRows, newLastTimestamp)
        else
          let currentDate = getTime parse timestampValue in
          if num_le currentDate lastDate then rowLoop parse lastDate rows (newRows, newLastTimestamp)
          else
            let staticData = slice row 0 STATIC_COLS;
                newRows' = groupLoop row staticData [0..<NUMBER_OF_GROUPS] newRows;
                newLastTimestamp' =
                  (if num_gt currentDate (getTime parse newLastTimestamp) \<or> newLastTimestamp = CStr []
                   then timestampValue else newLastTimestamp)
            in rowLoop parse lastDate rows (newRows', newLastTimestamp'))"

text \<open>
  The target sheet: its rows (row 1 first) and the watermark cell \<^verbatim>\<open>Z1\<close>, which lies
  in row 1 to the right of the 21 columns of the table. \<^verbatim>\<open>getLastRow\<close> is the last row
  with content.
\<close>

record target =
  t_rows :: "cell list list"
  t_z1 :: cell

definition getLastRow :: "target \<Rightarrow> nat" where
  "getLastRow t = max (length (t_rows t)) (if t_z1 t = CStr [] then 0 else 1)"

definition writeRows :: "nat \<Rightarrow> cell list list \<Rightarrow> target \<Rightarrow> target" where
  "writeRows startRow rows t =
     t\<lparr>t_rows := t_rows t @ replicate (startRow - 1 - length (t_rows t)) [] @ rows\<rparr>"

definition lastDateOf :: "(string \<Rightarrow> time_value) \<Rightarrow> cell \<Rightarrow> time_value" where
  "lastDateOf parse lastTimestampValue =
     (if truthy lastTimestampValue then getTime parse lastTimestampValue else Some 0)"

text \<open>
  One run: \<open>data\<close> is the whole source range, header row included. The comparison
  \<^verbatim>\<open>newLastTimestamp !== lastTimestampValue\<close> is by identity on dates, and by value
  here: the loop replaces the watermark only by a cell whose time is greater, or when
  the watermark is the empty text, so the two agree.
\<close>

definition flattenTransactionsAudit ::
    "(string \<Rightarrow> time_value) \<Rightarrow> cell list list \<Rightarrow> target \<Rightarrow> target" where
  "flattenTransactionsAudit parse data targetSheet =
     (let lastTimestampValue = t_z1 targetSheet;
          lastDate = lastDateOf parse lastTimestampValue
      in if length data \<le> 1 then targetSheet
         else
           let t1 = (if getLastRow targetSheet = 0
                     then writeRows (getLastRow targetSheet + 1) [map CStr auditHeaders] targetSheet
                     else targetSheet);
               (newRows, newLastTimestamp) =
                  rowLoop parse lastDate (drop 1 data) ([], lastTimestampValue);
               t2 = (if length newRows > 0
                     then writeRows (getLastRow t1 + 1) newRows t1 else t1)
           in if newLastTimestamp \<noteq> lastTimestampValue
              then t2\<lparr>t_z1 := newLastTimestamp\<rparr> else t2)"

text \<open>
  The rows one run emits, and the watermark it leaves. The sheets \<^verbatim>\<open>source_02\<close> and
  \<^verbatim>\<open>flattern_audit\<close> are taken to hold what was written to them: a later run reads
  from \<^verbatim>\<open>Z1\<close> the cell the run before has stored there.
\<close>

definition emittedRows :: "(string \<Rightarrow> time_value) \<Rightarrow> cell list list \<Rightarrow> cell \<Rightarrow> cell list list" where
  "emittedRows parse data z1 =
     (if length data \<le> 1 then []
      else fst (rowLoop parse (lastDateOf parse z1) (drop 1 data) ([], z1)))"

definition watermarkAfter :: "(string \<Rightarrow> time_value) \<Rightarrow> cell list list \<Rightarrow> cell \<Rightarrow> cell" where
  "watermarkAfter parse data z1 = t_z1 (flattenTransactionsAudit parse data \<lparr>t_rows = [], t_z1 = z1\<rparr>)"

subsection \<open>Notions for stating the properties of the transform\<close>

text \<open>The cells of group \<open>g\<close> of a row, and what one pass of the inner loop pushes for it.\<close>

definition auditGroup :: "cell list \<Rightarrow> nat \<Rightarrow> cell list" where
  "auditGroup row g = slice row (STATIC_COLS + g * AUDIT_GROUP_SIZE) (STATIC_COLS + g * AUDIT_GROUP_SIZE + AUDIT_GROUP_SIZE)"

definition groupOutput :: "cell list \<Rightarrow> nat \<Rightarrow> cell list list" where
  "groupOutput row g = groupLoop row (slice row 0 STATIC_COLS) [g] []"

text \<open>
  A row passes the three \<^verbatim>\<open>continue\<close> tests of the outer loop (\<open>processed\<close>); what the
  loop body pushes for one source row (\<open>rowOutput\<close>).
\<close>

definition processed :: "(string \<Rightarrow> time_value) \<Rightarrow> time_value \<Rightarrow> cell list \<Rightarrow> bool" where
  "processed parse lastDate row =
     (\<not> length row < EXPECTED_TOTAL_COLS \<and> truthy (row ! 0) \<and> \<not> num_le (getTime parse (row ! 0)) lastDate)"

definition rowOutput :: "(string \<Rightarrow> time_value) \<Rightarrow> cell \<Rightarrow> cell list \<Rightarrow> cell list list" where
  "rowOutput parse z1 row = fst (rowLoop parse (lastDateOf parse z1) [row] ([], z1))"

text \<open>
  An eligible row, in the words of the specification: full length, a non-empty
  timestamp, and an instant strictly newer than the watermark.
\<close>

definition eligible :: "(string \<Rightarrow> time_value) \<Rightarrow> cell \<Rightarrow> cell list \<Rightarrow> bool" where
  "eligible parse z1 row =
     (length row \<ge> EXPECTED_TOTAL_COLS \<and> truthy (row ! 0) \<and> num_gt (getTime parse (row ! 0)) (lastDateOf parse z1))"

text \<open>The update of \<open>newLastTimestamp\<close> at the end of the loop body, and the time of a cell.\<close>

definition wmStep :: "(string \<Rightarrow> time_value) \<Rightarrow> cell \<Rightarrow> cell \<Rightarrow> cell" where
  "wmStep parse wm ts =
     (if num_gt (getTime parse ts) (getTime parse wm) \<or> wm = CStr [] then ts else wm)"

definition timeOf :: "(string \<Rightarrow> time_value) \<Rightarrow> cell \<Rightarrow> int" where
  "timeOf parse c = the (getTime parse c)"

text \<open>
  Every timestamp the run reads is a valid instant: the watermark if it is non-empty,
  and the timestamp of every full-length row that has one.
\<close>

definition validTimes :: "(string \<Rightarrow> time_value) \<Rightarrow> cell \<Rightarrow> cell list list \<Rightarrow> bool" where
  "validTimes parse z1 rows =
     ((truthy z1 \<longrightarrow> getTime parse z1 \<noteq> None) \<and>
      list_all (\<lambda>row. length row \<ge> EXPECTED_TOTAL_COLS \<and> truthy (row ! 0)
                  \<longrightarrow> getTime parse (row ! 0) \<noteq> None) rows)"

subsection \<open>Sample tables\<close>

text \<open>A text parser that takes no text for a date; it agrees with every parser on text that is none.\<close>

definition unparsed :: "string \<Rightarrow> time_value" where
  "unparsed s = None"

text \<open>
  A source row of 344 cells: the four static cells, four empty groups, one filled group
  and fifteen empty groups; and the row the transform emits for it.
\<close>

definition sampleRow :: "cell list" where
  "sampleRow = [CDate 1000, CStr ''e@x.com'', CStr ''req'', CDate 0]
     @ replicate (4 * 17) (CStr [])
     @ (CStr ''TR-1'' # replicate 15 (CStr ''PASS'') @ [CStr ''ok''])
     @ replicate (15 * 17) (CStr [])"

definition sampleOut :: "cell list" where
  "sampleOut = [CDate 1000, CStr ''e@x.com'', CStr ''req'', CDate 0, CStr ''TR-1'',
   CStr ''PASS'', CStr ''PASS'', CStr ''PASS'', CStr ''PASS'',
   CStr ''PASS'', CStr ''PASS'', CStr ''PASS'', CStr ''PASS'',
   CStr ''PASS'', CStr ''PASS'', CStr ''PASS'', CStr ''PASS'',
   CStr ''PASS'', CStr ''PASS'', CStr ''PASS'', CStr ''ok'']"

definition headerRow :: "cell list" where
  "headerRow = map CStr (take 4 auditHeaders)"

definition sampleData :: "cell list list" where
  "sampleData = [headerRow, sampleRow]"

text \<open>
  The same row with a timestamp cell that holds no date: the text \<^verbatim>\<open>n/a\<close>, and the
  number \<^verbatim>\<open>1e16\<close>, which lies beyond the range of time values.
\<close>

definition nanRow :: "cell list" where
  "nanRow = CStr ''n/a'' # drop 1 sampleRow"

definition hugeRow :: "cell list" where
  "hugeRow = CNum 10000000000000000 # drop 1 sampleRow"

section \<open>Numbers of the script runtime\<close>

text \<open>
  A number of the runtime is a binary64 value: \<^verbatim>\<open>NaN\<close>, an infinity, or a finite value
  \<open>m * 2 ^ e\<close>, kept as the pair of an odd mantissa \<open>m\<close> and an exponent \<open>e\<close> (zero is
  \<open>Fin 0 0\<close>; the sign of zero is not kept: no operation below tells \<^verbatim>\<open>-0\<close> from \<^verbatim>\<open>0\<close>).
  All arithmetic is on integers: a fraction is a numerator and a positive denominator.
\<close>

datatype jsnum = NaN | PosInf | NegInf | Fin int int

text \<open>The number of binary, and of decimal, digits of a positive integer.\<close>

function bitlen :: "int \<Rightarrow> int" where
  "bitlen n = (if n \<le> 0 then 0 else 1 + bitlen (n div 2))"
  by pat_completeness auto
termination
  by (relation "measure nat") auto

function declen :: "int \<Rightarrow> int" where
  "declen n = (if n \<le> 0 then 0 else 1 + declen (n div 10))"
  by pat_completeness auto
termination
  by (relation "measure nat") auto

text \<open>The pair of an odd mantissa and an exponent with the value \<open>m * 2 ^ e\<close>.\<close>

function norm2 :: "int \<Rightarrow> int \<Rightarrow> int \<times> int" where
  "norm2 m e = (if m = 0 then (0, 0) else if even m then norm2 (m div 2) (e + 1) else (m, e))"
  by pat_completeness auto
termination
  by (relation "measure (\<lambda>(m, e). nat \<bar>m\<bar>)") auto

text \<open>\<open>scaled b p q e\<close>: the fraction \<open>p / (q * b ^ e)\<close> for an integer \<open>e\<close> of either sign,
  as a numerator and a denominator.\<close>

definition scaled :: "int \<Rightarrow> int \<Rightarrow> int \<Rightarrow> int \<Rightarrow> int \<times> int" where
  "scaled b p q e = (if 0 \<le> e then (p, q * b ^ nat e) else (p * b ^ nat (- e), q))"

text \<open>
  \<open>floorLog b len p q\<close>: the integer \<open>e\<close> with \<open>b ^ e \<le> p / q < b ^ (e + 1)\<close>, from the
  digit counts of \<open>p\<close> and \<open>q\<close> in base \<open>b\<close>.
\<close>

definition floorLog :: "int \<Rightarrow> (int \<Rightarrow> int) \<Rightarrow> int \<Rightarrow> int \<Rightarrow> int" where
  "floorLog b len p q =
     (let e = len p - len q; (n, d) = scaled b p q e in if d \<le> n then e else e - 1)"

text \<open>The integer nearest to \<open>n / d\<close>, the even one of two equally near.\<close>

definition roundHalfEven :: "int \<Rightarrow> int \<Rightarrow> int" where
  "roundHalfEven n d =
     (let f = n div d; r = n mod d
      in if 2 * r < d then f else if d < 2 * r then f + 1 else if even f then f else f + 1)"

text \<open>
  The binary64 value nearest to the fraction \<open>p / q\<close> (ties to even): 53 significant
  bits, exponents down to that of the subnormal numbers, an infinity from \<open>2 ^ 1024\<close> on.
\<close>

definition roundToDouble :: "int \<Rightarrow> int \<Rightarrow> jsnum" where
  "roundToDouble p q =
     (if p = 0 then Fin 0 0
      else let a = \<bar>p\<bar>;
               e = max (floorLog 2 bitlen a q) (- 1022);
               (n, d) = scaled 2 a q (e - 52);
               m = roundHalfEven n d
           in if 1023 < e \<or> (e = 1023 \<and> 2 ^ 53 \<le> m) then (if 0 < p then PosInf else NegInf)
              else let (m', e') = norm2 m (e - 52) in Fin (if 0 < p then m' else - m') e')"


text \<open>The exact value \<open>m * 2 ^ e\<close> as a fraction.\<close>

definition fracOf :: "int \<Rightarrow> int \<Rightarrow> int \<times> int" where
  "fracOf m e = (if 0 \<le> e then (m * 2 ^ nat e, 1) else (m, 2 ^ nat (- e)))"

fun isNaN :: "jsnum \<Rightarrow> bool" where
  "isNaN NaN = True"
| "isNaN _ = False"

fun isZero :: "jsnum \<Rightarrow> bool" where
  "isZero (Fin m e) = (m = 0)"
| "isZero _ = False"

fun isNegative :: "jsnum \<Rightarrow> bool" where
  "isNegative NegInf = True"
| "isNegative (Fin m e) = (m < 0)"
| "isNegative _ = False"

text \<open>The product \<^verbatim>\<open>x * y\<close>: the exact product, rounded.\<close>

fun jsMul :: "jsnum \<Rightarrow> jsnum \<Rightarrow> jsnum" where
  "jsMul (Fin m1 e1) (Fin m2 e2) = (let (p, q) = fracOf (m1 * m2) (e1 + e2) in roundToDouble p q)"
| "jsMul x y =
     (if isNaN x \<or> isNaN y \<or> isZero x \<or> isZero y then NaN
      else if isNegative x = isNegative y then PosInf else NegInf)"

text \<open>\<^verbatim>\<open>Math.round(x)\<close>: the integer \<open>\<lfloor>x + 1/2\<rfloor>\<close>; a number with \<open>e \<ge> 0\<close> is an integer already.\<close>

fun mathRound :: "jsnum \<Rightarrow> jsnum" where
  "mathRound (Fin m e) =
     (if 0 \<le> e then Fin m e
      else let (m', e') = norm2 ((2 * m + 2 ^ nat (- e)) div 2 ^ nat (1 - e)) 0 in Fin m' e')"
| "mathRound x = x"

subsection \<open>The decimal form of a number\<close>

definition digitChar :: "int \<Rightarrow> char" where
  "digitChar d = ''0123456789'' ! nat d"

function digitsOf :: "int \<Rightarrow> string" where
  "digitsOf n = (if n < 10 then [digitChar n] else digitsOf (n div 10) @ [digitChar (n mod 10)])"
  by pat_completeness auto
termination
  by (relation "measure nat") auto

text \<open>
  \<open>fitAt x p q n k\<close>: the \<open>k\<close>-digit integer \<open>s\<close> for which \<open>s * 10 ^ (n - k)\<close> rounds to the
  number \<open>x\<close>, whose exact value is \<open>p / q\<close>; of two such the one nearer to \<open>p / q\<close>, of
  two equally near the even one.
\<close>

definition fitAt :: "jsnum \<Rightarrow> int \<Rightarrow> int \<Rightarrow> int \<Rightarrow> int \<Rightarrow> int option" where
  "fitAt x p q n k =
     (let (a, b) = scaled 10 p q (n - k);
          lo = a div b;
          hi = lo + 1;
          (pl, ql) = scaled 10 lo 1 (k - n);
          (ph, qh) = scaled 10 hi 1 (k - n);
          okLo = (roundToDouble pl ql = x);
          okHi = (roundToDouble ph qh = x)
      in if okLo \<and> okHi
         then Some (if 2 * a < (lo + hi) * b then lo
                    else if (lo + hi) * b < 2 * a then hi
                    else if even lo then lo else hi)
         else if okLo then Some lo
         else if okHi then Some hi
         else None)"

text \<open>
  The shortest digit string that reads back as the number: the first \<open>k\<close> of 1, ..., 17
  with a fit. Seventeen digits always suffice for a binary64 value.
\<close>

fun findDigits :: "jsnum \<Rightarrow> int \<Rightarrow> int \<Rightarrow> int \<Rightarrow> int list \<Rightarrow> int \<times> int" where
  "findDigits x p q n [] = (fst (scaled 10 p q (n - 17)) div snd (scaled 10 p q (n - 17)), 17)"
| "findDigits x p q n (k # ks) =
     (case fitAt x p q n k of Some s \<Rightarrow> (s, k) | None \<Rightarrow> findDigits x p q n ks)"

text \<open>The decimal form of a positive number, by the cases of \<^verbatim>\<open>Number::toString\<close>.\<close>

definition posToString :: "int \<Rightarrow> int \<Rightarrow> string" where
  "posToString m e =
     (let (p, q) = fracOf m e;
          n0 = floorLog 10 declen p q + 1;
          (s0, k) = findDigits (Fin m e) p q n0 [1..17];
          (s, n) = (if s0 = 10 ^ nat k then (s0 div 10, n0 + 1) else (s0, n0));
          ds = digitsOf s
      in if k \<le> n \<and> n \<le> 21 then ds @ replicate (nat (n - k)) CHR ''0''
         else if 0 < n \<and> n \<le> 21 then take (nat n) ds @ ''.'' @ drop (nat n) ds
         else if - 6 < n \<and> n \<le> 0 then ''0.'' @ replicate (nat (- n)) CHR ''0'' @ ds
         else let x = n - 1;
                  es = (if x < 0 then ''-'' else ''+'') @ digitsOf \<bar>x\<bar>
              in if k = 1 then ds @ ''e'' @ es
                 else take 1 ds @ ''.'' @ drop 1 ds @ ''e'' @ es)"

fun numToString :: "jsnum \<Rightarrow> string" where
  "numToString NaN = ''NaN''"
| "numToString PosInf = ''Infinity''"
| "numToString NegInf = ''-Infinity''"
| "numToString (Fin m e) =
     (if m = 0 then ''0'' else if m < 0 then ''-'' @ posToString (- m) e else posToString m e)"


subsection \<open>Reading a number: \<^verbatim>\<open>parseFloat\<close>\<close>

text \<open>
  \<^verbatim>\<open>parseFloat\<close> skips leading white space, reads the longest prefix that is a decimal
  literal (a sign, \<^verbatim>\<open>Infinity\<close> or digits with an optional fraction and exponent) and
  rounds its value; without such a prefix the result is \<^verbatim>\<open>NaN\<close>.
\<close>

definition ofInt :: "int \<Rightarrow> jsnum" where
  "ofInt n = (let (m, e) = norm2 n 0 in Fin m e)"

fun jsNeg :: "jsnum \<Rightarrow> jsnum" where
  "jsNeg (Fin m e) = Fin (- m) e"
| "jsNeg PosInf = NegInf"
| "jsNeg NegInf = PosInf"
| "jsNeg NaN = NaN"

definition isWhiteSpace :: "char \<Rightarrow> bool" where
  "isWhiteSpace c = (of_char c \<in> {9, 10, 11, 12, 13, 32, 160 :: nat})"

definition isDigit :: "char \<Rightarrow> bool" where
  "isDigit c = (48 \<le> (of_char c :: nat) \<and> (of_char c :: nat) \<le> 57)"

definition digitsVal :: "string \<Rightarrow> int" where
  "digitsVal ds = foldl (\<lambda>a c. 10 * a + (of_char c - 48)) 0 ds"

definition exponentPart :: "string \<Rightarrow> int" where
  "exponentPart r =
     (case r of
        [] \<Rightarrow> 0
      | c # r1 \<Rightarrow>
          if c = CHR ''e'' \<or> c = CHR ''E''
          then let (sg, d) = (case r1 of
                                [] \<Rightarrow> (1, r1)
                              | c1 # r2 \<Rightarrow> if c1 = CHR ''-'' then (- 1, r2)
                                          else if c1 = CHR ''+'' then (1, r2) else (1, r1));
                   ds = takeWhile isDigit d
               in if ds = [] then 0 else sg * digitsVal ds
          else 0)"

definition parseFloat :: "string \<Rightarrow> jsnum" where
  "parseFloat inputString =
     (let trimmed = dropWhile isWhiteSpace inputString;
          (neg, u) = (case trimmed of
                        [] \<Rightarrow> (False, trimmed)
                      | c # r \<Rightarrow> if c = CHR ''-'' then (True, r)
                                 else if c = CHR ''+'' then (False, r) else (False, trimmed));
          x = (if take 8 u = ''Infinity'' then PosInf
               else let ip = takeWhile isDigit u;
                        r1 = dropWhile isDigit u;
                        fp = (case r1 of [] \<Rightarrow> [] | c # r \<Rightarrow> if c = CHR ''.'' then takeWhile isDigit r else []);
                        r2 = (case r1 of [] \<Rightarrow> [] | c # r \<Rightarrow> if c = CHR ''.'' then dropWhile isDigit r else r1)
                    in if ip = [] \<and> fp = [] then NaN
                       else let (p, q) = scaled 10 (digitsVal (ip @ fp)) 1 (int (length fp) - exponentPart r2)
                            in roundToDouble p q)
      in if neg then jsNeg x else x)"

text \<open>
  The recursive equations are used by evaluation only; they are not simplification
  rules.
\<close>

declare bitlen.simps [simp del] declen.simps [simp del] norm2.simps [simp del]
  digitsOf.simps [simp del]


section \<open>The weekly snapshot mailer (\<^verbatim>\<open>sendFormattedEmail\<close>)\<close>

text \<open>An exception of the runtime, with its message.\<close>

datatype error = TypeError string

text \<open>
  \<^verbatim>\<open>Utilities.formatDate(d, zone, "MM-dd-yyyy HH:mm:ss")\<close>. The calendar fields of an
  instant in the script's time zone are the platform's and a parameter; the pattern is
  the source's.
\<close>

record civil =
  cv_year :: int
  cv_month :: int
  cv_day :: int
  cv_hour :: int
  cv_minute :: int
  cv_second :: int

definition pad :: "nat \<Rightarrow> int \<Rightarrow> string" where
  "pad w n = replicate (w - length (digitsOf n)) CHR ''0'' @ digitsOf n"

definition formatDate :: "(int \<Rightarrow> civil) \<Rightarrow> int \<Rightarrow> string" where
  "formatDate calendar t =
     (let c = calendar t
      in pad 2 (cv_month c) @ ''-'' @ pad 2 (cv_day c) @ ''-'' @ pad 4 (cv_year c) @ '' ''
         @ pad 2 (cv_hour c) @ '':'' @ pad 2 (cv_minute c) @ '':'' @ pad 2 (cv_second c))"

text \<open>The number of a sheet cell as a number of the runtime.\<close>

definition numOfRat :: "rat \<Rightarrow> jsnum" where
  "numOfRat r = (let (p, q) = quotient_of r in roundToDouble p q)"

text \<open>
  \<open>currentTimestamp\<close>: the formatted date for a date cell, otherwise
  \<^verbatim>\<open>timestampCell.toString()\<close>, which \<^verbatim>\<open>null\<close> does not have.
\<close>

fun currentTimestampOf :: "(int \<Rightarrow> civil) \<Rightarrow> cell \<Rightarrow> error + string" where
  "currentTimestampOf calendar (CDate t) = Inr (formatDate calendar t)"
| "currentTimestampOf calendar (CStr s) = Inr s"
| "currentTimestampOf calendar (CNum r) = Inr (numToString (numOfRat r))"
| "currentTimestampOf calendar (CBool b) = Inr (if b then ''true'' else ''false'')"
| "currentTimestampOf calendar CNull = Inl (TypeError ''Cannot read properties of null'')"

text \<open>
  What a run does, in order: log lines, the call of the mail transport, the call that
  writes the script property (and, in the attendance mailer, the alerts shown to the
  user). The mail transport and the property store are parameters: a call returns
  \<open>None\<close> when it returns and the text of the exception when it throws. Both calls stand
  in one \<^verbatim>\<open>try\<close> block, so an exception of either is caught and logged. The sheet
  \<^verbatim>\<open>last_audit\<close> is taken to exist, and the subject and the body are composed from its
  cells before the test and do not enter it: \<open>message\<close> is the composed mail.
  \<open>lastTimestamp\<close> is the script property \<^verbatim>\<open>lastSentTicketTimestamp\<close>, \<open>None\<close> when it
  was never set; the result holds the events of the run and the property after it.
\<close>

datatype 'm event = Logged string | SendEmail 'm | SetProperty string string | Alert string

definition sendFormattedEmail ::
    "(int \<Rightarrow> civil) \<Rightarrow> ('m \<Rightarrow> string option) \<Rightarrow> (string \<Rightarrow> string \<Rightarrow> string option)
      \<Rightarrow> 'm \<Rightarrow> cell \<Rightarrow> string option \<Rightarrow> error + ('m event list \<times> string option)" where
  "sendFormattedEmail calendar mailApp setProperty message timestampCell lastTimestamp =
     (if \<not> truthy timestampCell
      then Inr ([Logged ''No timestamp found, email not sent.''], lastTimestamp)
      else
        case currentTimestampOf calendar timestampCell of
          Inl e \<Rightarrow> Inl e
        | Inr currentTimestamp \<Rightarrow>
            if currentTimestamp \<noteq> [] \<and> Some currentTimestamp \<noteq> lastTimestamp
            then
              (case mailApp message of
                 None \<Rightarrow>
                   (case setProperty ''lastSentTicketTimestamp'' currentTimestamp of
                      None \<Rightarrow>
                        Inr ([SendEmail message, Logged ''Email sent successfully.'',
                              SetProperty ''lastSentTicketTimestamp'' currentTimestamp],
                             Some currentTimestamp)
                    | Some e \<Rightarrow>
                        Inr ([SendEmail message, Logged ''Email sent successfully.'',
                              SetProperty ''lastSentTicketTimestamp'' currentTimestamp,
                              Logged (''!Error sending weekly audit email: '' @ e)],
                             lastTimestamp))
               | Some e \<Rightarrow>
                   Inr ([SendEmail message, Logged (''!Error sending weekly audit email: '' @ e)],
                        lastTimestamp))
            else Inr ([Logged ''No new timestamp or timestamp already processed!''], lastTimestamp))"

subsection \<open>The dedup rule in the words of the specification\<close>

text \<open>
  The notions of the dedup rule, written from its wording and not from the code. A
  cell is non-empty when it holds something: it is not the empty text a blank cell
  reads as (and not \<^verbatim>\<open>null\<close>).
\<close>

definition nonEmptyCell :: "cell \<Rightarrow> bool" where
  "nonEmptyCell c = (c \<noteq> CStr [] \<and> c \<noteq> CNull)"

text \<open>
  The canonical string form of the timestamp cell: a date-typed value is formatted as
  a date, every other value is its raw string form, which is the text itself for a
  text, the decimal numeral of a number and \<^verbatim>\<open>true\<close> or \<^verbatim>\<open>false\<close> for a truth value.
\<close>

definition canonicalForm :: "(int \<Rightarrow> civil) \<Rightarrow> cell \<Rightarrow> string" where
  "canonicalForm calendar c =
     (case c of
        CDate t \<Rightarrow> formatDate calendar t
      | CStr s \<Rightarrow> s
      | CNum r \<Rightarrow> numToString (numOfRat r)
      | CBool b \<Rightarrow> (if b then ''true'' else ''false'')
      | CNull \<Rightarrow> ''null'')"

text \<open>
  A cell that holds a timestamp for the mailer: it is non-empty and neither the number
  \<^verbatim>\<open>0\<close> nor the truth value \<^verbatim>\<open>FALSE\<close>.
\<close>

definition presentCell :: "cell \<Rightarrow> bool" where
  "presentCell c = (nonEmptyCell c \<and> c \<noteq> CNum 0 \<and> c \<noteq> CBool False)"

text \<open>A send was attempted when the mail transport was called.\<close>

definition sendAttempted :: "'m event list \<Rightarrow> bool" where
  "sendAttempted evs = list_ex (\<lambda>e. case e of SendEmail m \<Rightarrow> True | _ \<Rightarrow> False) evs"

text \<open>The send succeeded when the transport was called and returned.\<close>

definition sendSucceeded :: "('m \<Rightarrow> string option) \<Rightarrow> 'm \<Rightarrow> 'm event list \<Rightarrow> bool" where
  "sendSucceeded mailApp message evs = (sendAttempted evs \<and> mailApp message = None)"

text \<open>A calendar for examples: every instant reads as 1 January 2024, 00:00:00.\<close>

definition sampleCalendar :: "int \<Rightarrow> civil" where
  "sampleCalendar t = \<lparr>cv_year = 2024, cv_month = 1, cv_day = 1, cv_hour = 0, cv_minute = 0, cv_second = 0\<rparr>"

definition mailOk :: "string \<Rightarrow> string option" where
  "mailOk m = None"

definition mailFails :: "string \<Rightarrow> string option" where
  "mailFails m = Some ''Exception: Service invoked too many times''"

text \<open>A property store that takes every write, and one that refuses every write.\<close>

definition propOk :: "string \<Rightarrow> string \<Rightarrow> string option" where
  "propOk k v = None"

definition propFails :: "string \<Rightarrow> string \<Rightarrow> string option" where
  "propFails k v = Some ''Exception: Argument too large: value''"

section \<open>The department attendance mailer\<close>

subsection \<open>Attendance records and objects used as dictionaries\<close>

text \<open>
  An attendance record is the object \<^verbatim>\<open>getAttendanceRows_\<close> builds: nine text
  properties, created in this order. \<open>entries\<close> lists them under their names;
  \<^verbatim>\<open>Object.keys\<close> of a record is \<open>keysOf\<close> and \<^verbatim>\<open>row[header]\<close> is \<open>getProp\<close>.
\<close>

record attendance =
  Department :: string
  Name :: string
  EmployeeID :: string
  AMFaceScan :: string
  PMFaceScan :: string
  Attendance :: string
  HRAdj :: string
  KPILeave :: string
  KPIPercent :: string

definition entries :: "attendance \<Rightarrow> (string \<times> string) list" where
  "entries r =
     [(''Department'', Department r), (''Name'', Name r), (''Employee ID'', EmployeeID r),
      (''AM Face Scan'', AMFaceScan r), (''PM Face Scan'', PMFaceScan r),
      (''Attendance'', Attendance r), (''HR - Adj'', HRAdj r), (''KPI Leave'', KPILeave r),
      (''KPI (%)'', KPIPercent r)]"

definition keysOf :: "attendance \<Rightarrow> string list" where
  "keysOf r = map fst (entries r)"

definition getProp :: "attendance \<Rightarrow> string \<Rightarrow> string option" where
  "getProp r h = map_of (entries r) h"

text \<open>
  \<^verbatim>\<open>groupedData\<close> and \<^verbatim>\<open>deptEmailsMap\<close> are plain objects created by \<^verbatim>\<open>{}\<close> and used as
  dictionaries: the own properties in creation order. Reading a name that is no own
  property finds the members every plain object inherits: a function, or for
  \<^verbatim>\<open>__proto__\<close> the prototype object; all of them are truthy and none is an array or a
  text.
\<close>

type_synonym 'v dict = "(string \<times> 'v) list"

definition objectPrototypeKeys :: "string list" where
  "objectPrototypeKeys =
     [''constructor'', ''__defineGetter__'', ''__defineSetter__'', ''hasOwnProperty'',
      ''__lookupGetter__'', ''__lookupSetter__'', ''isPrototypeOf'', ''propertyIsEnumerable'',
      ''toString'', ''valueOf'', ''__proto__'', ''toLocaleString'']"

datatype 'v lookup = Undefined | Inherited | Own 'v

definition objGet :: "'v dict \<Rightarrow> string \<Rightarrow> 'v lookup" where
  "objGet obj k =
     (case map_of obj k of
        Some v \<Rightarrow> Own v
      | None \<Rightarrow> if k \<in> set objectPrototypeKeys then Inherited else Undefined)"

text \<open>Assignment to a property: in place for an own property, else a new last one.\<close>

fun objSet :: "'v dict \<Rightarrow> string \<Rightarrow> 'v \<Rightarrow> 'v dict" where
  "objSet [] k v = [(k, v)]"
| "objSet ((k', v') # obj) k v = (if k' = k then (k, v) # obj else (k', v') # objSet obj k v)"

text \<open>
  \<^verbatim>\<open>Object.keys\<close>: the names that are array indices (canonical decimal numerals below
  \<open>2 ^ 32 - 1\<close>) in ascending order, then the other names in creation order.
\<close>

definition isArrayIndex :: "string \<Rightarrow> bool" where
  "isArrayIndex s =
     (s \<noteq> [] \<and> list_all isDigit s \<and> (s = ''0'' \<or> hd s \<noteq> CHR ''0'') \<and> digitsVal s < 2 ^ 32 - 1)"

definition objectEntries :: "'v dict \<Rightarrow> (string \<times> 'v) list" where
  "objectEntries obj =
     sort_key (\<lambda>(k, v). digitsVal k) (filter (\<lambda>(k, v). isArrayIndex k) obj)
     @ filter (\<lambda>(k, v). \<not> isArrayIndex k) obj"

definition objectKeys :: "'v dict \<Rightarrow> string list" where
  "objectKeys obj = map fst (objectEntries obj)"

subsection \<open>Grouping (\<^verbatim>\<open>groupRowsByDepartment_\<close>)\<close>

text \<open>
  The reducer: \<^verbatim>\<open>if (!acc[department]) acc[department] = []\<close>, then
  \<^verbatim>\<open>acc[department].push(row)\<close>. An inherited member is truthy, so no array is stored
  for its name, and it has no \<^verbatim>\<open>push\<close>: the call throws.
\<close>

definition groupStep :: "attendance list dict \<Rightarrow> attendance \<Rightarrow> error + attendance list dict" where
  "groupStep acc row =
     (let department = Department row
      in if department \<noteq> []
         then
           let acc1 = (case objGet acc department of
                         Undefined \<Rightarrow> objSet acc department []
                       | _ \<Rightarrow> acc)
           in case objGet acc1 department of
                Own rs \<Rightarrow> Inr (objSet acc1 department (rs @ [row]))
              | _ \<Rightarrow> Inl (TypeError ''acc[department].push is not a function'')
         else Inr acc)"

fun reduceRows :: "attendance list \<Rightarrow> attendance list dict \<Rightarrow> error + attendance list dict" where
  "reduceRows [] acc = Inr acc"
| "reduceRows (row # rows) acc =
     (case groupStep acc row of Inl e \<Rightarrow> Inl e | Inr acc' \<Rightarrow> reduceRows rows acc')"

definition groupRowsByDepartment :: "attendance list \<Rightarrow> error + attendance list dict" where
  "groupRowsByDepartment rows = reduceRows rows []"

subsection \<open>The table of one department (\<^verbatim>\<open>buildHtmlTable_\<close>)\<close>

definition dq :: char where "dq = CHR 0x22"
definition nl :: char where "nl = CHR 0x0A"

definition quoted :: "string \<Rightarrow> string" where
  "quoted s = dq # s @ [dq]"

text \<open>The text of a \<^verbatim>\<open>KPI (%)\<close> cell.\<close>

definition kpiText :: "string \<Rightarrow> string" where
  "kpiText cellValue =
     (let numericValue = parseFloat cellValue
      in if isNaN numericValue \<or> isZero numericValue then ''0%''
         else numToString (mathRound (jsMul numericValue (ofInt 100))) @ ''%'')"

text \<open>
  One body cell: its alignment and its text. A record holds texts, so of the final
  test \<^verbatim>\<open>cellValue === null || cellValue === '' || cellValue === 0\<close> only the empty
  text can hold; the number \<^verbatim>\<open>0\<close> it stores prints as \<^verbatim>\<open>0\<close>.
\<close>

definition cellAlign :: "string \<Rightarrow> string" where
  "cellAlign header = (if header = ''Name'' then ''left'' else ''center'')"

definition cellText :: "string \<Rightarrow> attendance \<Rightarrow> string" where
  "cellText header row =
     (let cellValue0 = (case getProp row header of Some v \<Rightarrow> v | None \<Rightarrow> []);
          cellValue1 = (if header = ''Name'' then cellValue0
                        else if header = ''KPI (%)'' then kpiText cellValue0
                        else cellValue0)
      in if cellValue1 = [] then ''0'' else cellValue1)"

definition cellHtml :: "attendance \<Rightarrow> string \<Rightarrow> string" where
  "cellHtml row header =
     ''<td style='' @ quoted (''border: 1px solid #dee2e6; padding: 8px; text-align: ''
        @ cellAlign header @ '';'') @ ''>'' @ cellText header row @ ''</td>''"

definition headerCell :: "nat \<Rightarrow> string \<Rightarrow> string" where
  "headerCell i header =
     (let columnWidth = (if i = 0 then ''width: 166px;''
                         else if i = 1 then ''width: 133px;''
                         else if i = 7 then ''width: 100px;''
                         else if 2 \<le> i \<and> i \<le> 6 then ''width: 90px;'' else []);
          textAlign = (if header = ''Name'' then ''left'' else ''center'')
      in ''<th style='' @ quoted (''border: 1px solid #dee2e6; padding: 8px; text-align: ''
           @ textAlign @ ''; '' @ columnWidth) @ ''>'' @ header @ ''</th>'')"

definition rowHtml :: "string list \<Rightarrow> nat \<Rightarrow> attendance \<Rightarrow> string" where
  "rowHtml displayHeaders index row =
     (let rowBackgroundColor = (if index mod 2 = 0 then ''#f8f9fa'' else ''#ffffff'')
      in ''<tr style='' @ quoted (''background-color: '' @ rowBackgroundColor @ '';'') @ ''>''
         @ foldl (\<lambda>html header. html @ cellHtml row header) [] displayHeaders
         @ ''</tr>'')"

definition buildHtmlTable :: "attendance list \<Rightarrow> string" where
  "buildHtmlTable rows =
     (if length rows = 0 then []
      else
        let headers = keysOf (hd rows);
            html0 = [nl] @ ''    <table style=''
              @ quoted (''width: 849px; table-layout: fixed; border-collapse: collapse; ''
                  @ ''font-family: Arial, sans-serif; font-size: 14px;'') @ ''>'' @ [nl]
              @ ''    <thead>'' @ [nl]
              @ ''      <tr style='' @ quoted ''background-color: #343a40; color: #ffffff;'' @ ''>'';
            displayHeaders = filter (\<lambda>header. header \<noteq> ''Department'') headers;
            html1 = foldl (\<lambda>html (i, header). html @ headerCell i header) html0
                      (enumerate 0 displayHeaders);
            html2 = html1 @ [nl] @ ''      </tr>'' @ [nl] @ ''    </thead>'' @ [nl] @ ''    <tbody>'';
            html3 = foldl (\<lambda>html (index, row). html @ rowHtml displayHeaders index row) html2
                      (enumerate 0 rows)
        in html3 @ [nl] @ ''    </tbody>'' @ [nl] @ ''  </table>'')"

subsection \<open>The attachment (\<^verbatim>\<open>toCsvBlob_\<close>)\<close>

record blob =
  blobContent :: string
  blobType :: string
  blobName :: string

fun joinWith :: "string \<Rightarrow> string list \<Rightarrow> string" where
  "joinWith sep [] = []"
| "joinWith sep [x] = x"
| "joinWith sep (x # y # ys) = x @ sep @ joinWith sep (y # ys)"

text \<open>\<^verbatim>\<open>value.replace(/"/g, '""')\<close>.\<close>

definition doubleQuotes :: "string \<Rightarrow> string" where
  "doubleQuotes s = concat (map (\<lambda>c. if c = dq then [dq, dq] else [c]) s)"

definition csvValue :: "string \<Rightarrow> string" where
  "csvValue v = (if CHR '','' \<in> set v \<or> nl \<in> set v then quoted (doubleQuotes v) else v)"

definition csvLine :: "string list \<Rightarrow> attendance \<Rightarrow> string" where
  "csvLine headers row =
     joinWith '','' (map (\<lambda>header. csvValue (case getProp row header of Some v \<Rightarrow> v | None \<Rightarrow> [])) headers)
     @ [nl]"

definition csvText :: "attendance list \<Rightarrow> string" where
  "csvText rows =
     (let headers = keysOf (hd rows);
          csvContent = joinWith '','' headers @ [nl]
      in foldl (\<lambda>csv row. csv @ csvLine headers row) csvContent rows)"

definition toCsvBlob :: "attendance list \<Rightarrow> string \<Rightarrow> blob option" where
  "toCsvBlob rows filename =
     (if length rows = 0 then None
      else Some \<lparr>blobContent = csvText rows, blobType = ''text/csv'', blobName = filename\<rparr>)"

subsection \<open>Sending one department's mail (\<^verbatim>\<open>sendDepartmentEmail_\<close>)\<close>

definition CC_EMAILS :: string where
  "CC_EMAILS = ''soeyarzar@marathonmyanmar.com''"

definition DEPT_MAP :: "(string \<times> string) list" where
  "DEPT_MAP =
     [(''1.Admin & HR'', ''Admin and HR''), (''13.Shwe_Zay'', ''Shwe Zay''), (''3. M_BI'', ''M BI''),
      (''4.Finance'', ''Finance''), (''6.M_Tech'', ''M Tech''),
      (''7.Marathon_Express'', ''Marathon Express''), (''8.M_Kitchen'', ''M Kitchen''),
      (''9.M_Oil'', ''M Oil'')]"

text \<open>
  The arguments of \<^verbatim>\<open>MailApp.sendEmail(recipients, subject, '', options)\<close>. The
  attachment is commented out in the source, so the mail carries none.
\<close>

record mail =
  mailTo :: string
  mailSubject :: string
  mailBody :: string
  mailHtmlBody :: string
  mailCc :: string
  mailName :: string

text \<open>
  What the platform supplies to a run: today's date as \<^verbatim>\<open>YYYYMMdd\<close>, the texts of the
  cells \<^verbatim>\<open>E2\<close>, \<^verbatim>\<open>F2\<close> and \<^verbatim>\<open>G2\<close> (the two dates formatted as \<^verbatim>\<open>dd-MMM-yyyy\<close>), and the
  mail transport, which returns \<open>None\<close> when the call returns and the message of the
  exception when it throws.
\<close>

record platform =
  dateString :: string
  weekNum :: string
  fromDate_F :: string
  upToDate_F :: string
  mailApp :: "mail \<Rightarrow> string option"

definition sq :: char where "sq = CHR 0x27"

text \<open>
  \<^verbatim>\<open>department = DEPT_MAP[department]\<close>: a code that is not in the table reads as
  \<^verbatim>\<open>undefined\<close>, which the templates print as that word.
\<close>

definition departmentLabel :: "string \<Rightarrow> string" where
  "departmentLabel department =
     (case map_of DEPT_MAP department of Some n \<Rightarrow> n | None \<Rightarrow> ''undefined'')"

definition departmentMail :: "platform \<Rightarrow> string \<Rightarrow> string \<Rightarrow> string \<Rightarrow> mail" where
  "departmentMail pf department recipients htmlTable =
     (let label = departmentLabel department;
          subject = ''Attendance ('' @ label @ '') '' @ weekNum pf;
          htmlBody = [nl]
            @ ''    <p>Dear '' @ label @ [sq] @ ''s HOD,</p>'' @ [nl]
            @ ''    <p>Please review the following table for your department'' @ [sq]
            @ ''s attendance KPI.</p>'' @ [nl]
            @ ''    <p>If you notice any discrepancies in the report, kindly reach out to ''
            @ ''hr@marathonmyanmar.com  (Thu Zar Swe).</p>'' @ [nl]
            @ ''    <p>Any adjustments will be reflected in the next weekly report.</p>'' @ [nl]
            @ ''    <p>Date Form: <strong>'' @ fromDate_F pf @ ''</strong></p>'' @ [nl]
            @ ''    <p>Up To Date: <strong>'' @ upToDate_F pf @ ''</strong></p>'' @ [nl]
            @ ''    '' @ htmlTable @ [nl]
            @ ''    <br>'' @ [nl]
            @ ''    <p>Best Regards,<br>'' @ [nl]
            @ ''    Marathon BI</p>'' @ [nl] @ ''  ''
      in \<lparr>mailTo = recipients, mailSubject = subject, mailBody = [], mailHtmlBody = htmlBody,
          mailCc = CC_EMAILS, mailName = ''Marathon BI''\<rparr>)"

subsection \<open>The run (\<^verbatim>\<open>sendAttendancePerDepartment\<close>)\<close>

record summary =
  departmentsProcessed :: nat
  emailsSent :: nat
  departmentsSkippedNoData :: nat
  departmentsSkippedNoEmail :: nat

text \<open>\<^verbatim>\<open>s.trim()\<close>.\<close>

definition jsTrim :: "string \<Rightarrow> string" where
  "jsTrim s = rev (dropWhile isWhiteSpace (rev (dropWhile isWhiteSpace s)))"

text \<open>
  The body of the loop for one department and its rows. \<^verbatim>\<open>deptEmailsMap[department]\<close>
  is absent, inherited (truthy, and without \<^verbatim>\<open>trim\<close>: the test throws outside the inner
  \<^verbatim>\<open>try\<close>) or a text. Everything inside the inner \<^verbatim>\<open>try\<close> but the call of the mail
  transport is a computation on texts.
\<close>

definition departmentStep ::
    "platform \<Rightarrow> string dict \<Rightarrow> string \<times> attendance list \<Rightarrow> summary \<times> mail event list
      \<Rightarrow> error + summary \<times> mail event list" where
  "departmentStep pf deptEmailsMap entry st =
     (let department = fst entry;
          departmentRows = snd entry;
          c = (fst st)\<lparr>departmentsProcessed := departmentsProcessed (fst st) + 1\<rparr>;
          evs = snd st;
          recipients = objGet deptEmailsMap department;
          skippedNoEmail =
            (c\<lparr>departmentsSkippedNoEmail := departmentsSkippedNoEmail c + 1\<rparr>,
             evs @ [Logged (''Skipped department '' @ [sq] @ department @ [sq]
                            @ '': No email mapping found.'')])
      in if length departmentRows = 0
         then Inr (c\<lparr>departmentsSkippedNoData := departmentsSkippedNoData c + 1\<rparr>,
                   evs @ [Logged (''Skipped department '' @ [sq] @ department @ [sq]
                                  @ '': No attendance rows.'')])
         else
           case recipients of
             Undefined \<Rightarrow> Inr skippedNoEmail
           | Inherited \<Rightarrow> Inl (TypeError ''recipients.trim is not a function'')
           | Own r \<Rightarrow>
               if r = [] \<or> jsTrim r = [] then Inr skippedNoEmail
               else
                 let htmlTable = buildHtmlTable departmentRows;
                     csvBlob = toCsvBlob departmentRows
                        (''Attendance_'' @ department @ ''_'' @ dateString pf @ ''.csv'');
                     m = departmentMail pf department r htmlTable
                 in case mailApp pf m of
                      None \<Rightarrow>
                        Inr (c\<lparr>emailsSent := emailsSent c + 1\<rparr>,
                             evs @ [SendEmail m,
                                    Logged (''Successfully sent email for department '' @ [sq]
                                            @ department @ [sq] @ '' to '' @ r @ ''.'')])
                    | Some e \<Rightarrow>
                        Inr (c,
                             evs @ [SendEmail m,
                                    Logged (''Failed to send email for department '' @ [sq]
                                            @ department @ [sq] @ ''. Error: '' @ e)]))"

text \<open>The loop; an exception ends it and leaves what was logged and sent before.\<close>

fun departmentLoop ::
    "platform \<Rightarrow> string dict \<Rightarrow> (string \<times> attendance list) list \<Rightarrow> summary \<times> mail event list
      \<Rightarrow> error option \<times> summary \<times> mail event list" where
  "departmentLoop pf deptEmailsMap [] st = (None, st)"
| "departmentLoop pf deptEmailsMap (entry # rest) st =
     (case departmentStep pf deptEmailsMap entry st of
        Inl e \<Rightarrow> (Some e, st)
      | Inr st' \<Rightarrow> departmentLoop pf deptEmailsMap rest st')"

datatype outcome = Completed summary | NoAttendanceData | Fatal error

fun errorMessage :: "error \<Rightarrow> string" where
  "errorMessage (TypeError m) = m"

definition showNat :: "nat \<Rightarrow> string" where
  "showNat n = digitsOf (int n)"

text \<open>
  One run, from the records \<^verbatim>\<open>getAttendanceRows_\<close> returned and the object
  \<^verbatim>\<open>getDeptEmails_\<close> returned; both sheets exist. \<^verbatim>\<open>departments\<close> is
  \<^verbatim>\<open>Object.keys(groupedData)\<close>, and \<^verbatim>\<open>groupedData[department]\<close> for such a name is its own
  value: the loop runs over \<open>objectEntries\<close>.
\<close>

definition sendAttendancePerDepartment ::
    "platform \<Rightarrow> attendance list \<Rightarrow> string dict \<Rightarrow> outcome \<times> mail event list" where
  "sendAttendancePerDepartment pf attendanceData deptEmailsMap =
     (if length attendanceData = 0
      then (NoAttendanceData, [Alert ''No attendance data found in the Attendance sheet. Exiting.''])
      else
        case groupRowsByDepartment attendanceData of
          Inl e \<Rightarrow>
            (Fatal e, [Logged (''A fatal error occurred: '' @ errorMessage e),
                       Alert ''An unexpected error occurred.''])
        | Inr groupedData \<Rightarrow>
            (case departmentLoop pf deptEmailsMap (objectEntries groupedData)
                    (\<lparr>departmentsProcessed = 0, emailsSent = 0, departmentsSkippedNoData = 0,
                      departmentsSkippedNoEmail = 0\<rparr>, []) of
               (Some e, c, evs) \<Rightarrow>
                 (Fatal e, evs @ [Logged (''A fatal error occurred: '' @ errorMessage e),
                                  Alert ''An unexpected error occurred.''])
             | (None, c, evs) \<Rightarrow>
                 (Completed c,
                  evs @ [Logged ''--- Email Sending Summary ---'',
                         Logged (''Total departments processed: '' @ showNat (departmentsProcessed c)),
                         Logged (''Emails successfully sent: '' @ showNat (emailsSent c)),
                         Logged (''Departments skipped (no attendance data): ''
                                 @ showNat (departmentsSkippedNoData c)),
                         Logged (''Departments skipped (no email mapping): ''
                                 @ showNat (departmentsSkippedNoEmail c)),
                         Alert ''Script complete!''])))"

subsection \<open>Notions for stating the properties of the mailer\<close>

text \<open>The mails a run attempted, in order.\<close>

fun attempts :: "mail event list \<Rightarrow> mail list" where
  "attempts [] = []"
| "attempts (SendEmail m # evs) = m # attempts evs"
| "attempts (e # evs) = attempts evs"

text \<open>A department has no usable mapping: none at all, or a blank one.\<close>

definition noMapping :: "string dict \<Rightarrow> string \<Rightarrow> bool" where
  "noMapping deptEmailsMap department =
     (case map_of deptEmailsMap department of None \<Rightarrow> True | Some r \<Rightarrow> r = [] \<or> jsTrim r = [])"

text \<open>What the step does for a department with rows and a mapping, by the result of the transport.\<close>

definition mailFor :: "platform \<Rightarrow> string dict \<Rightarrow> string \<times> attendance list \<Rightarrow> mail" where
  "mailFor pf deptEmailsMap entry =
     departmentMail pf (fst entry) (the (map_of deptEmailsMap (fst entry))) (buildHtmlTable (snd entry))"

text \<open>
  The invariant of the grouping: no name twice, and every name non-empty, not the name
  of an inherited member, and with at least one record. \<open>rowsOf\<close> reads the records
  stored under a name, none when the name is absent.
\<close>

definition goodDict :: "attendance list dict \<Rightarrow> bool" where
  "goodDict g = (distinct (map fst g) \<and>
     list_all (\<lambda>(k, rs). k \<noteq> [] \<and> k \<notin> set objectPrototypeKeys \<and> rs \<noteq> []) g)"

definition rowsOf :: "attendance list dict \<Rightarrow> string \<Rightarrow> attendance list" where
  "rowsOf g d = (case map_of g d of None \<Rightarrow> [] | Some rs \<Rightarrow> rs)"

text \<open>The counts after the loop body ran for a department that has rows.\<close>

definition stepAfter ::
    "platform \<Rightarrow> string dict \<Rightarrow> string \<times> attendance list \<Rightarrow> summary \<Rightarrow> summary" where
  "stepAfter pf em entry c =
     (if noMapping em (fst entry)
      then c\<lparr>departmentsProcessed := departmentsProcessed c + 1,
             departmentsSkippedNoEmail := departmentsSkippedNoEmail c + 1\<rparr>
      else if mailApp pf (mailFor pf em entry) = None
      then c\<lparr>departmentsProcessed := departmentsProcessed c + 1, emailsSent := emailsSent c + 1\<rparr>
      else c\<lparr>departmentsProcessed := departmentsProcessed c + 1\<rparr>)"

subsection \<open>Reading comma-separated text by the standard rules\<close>

text \<open>
  The reader the specification's round trip refers to: fields separated by commas,
  records ended by a line feed, a field that starts with a double quote runs to the
  closing quote, and inside it two double quotes stand for one. It is not part of the
  scripts.
\<close>

datatype csvMode = FieldStart | Unquoted | Quoted | QuoteSeen

fun csvScan :: "csvMode \<Rightarrow> string \<Rightarrow> string list \<Rightarrow> string list list \<Rightarrow> string \<Rightarrow> string list list" where
  "csvScan mode cur flds rows [] =
     (if mode = FieldStart \<and> flds = [] then rows else rows @ [flds @ [cur]])"
| "csvScan FieldStart cur flds rows (c # cs) =
     (if c = dq then csvScan Quoted [] flds rows cs
      else if c = CHR '','' then csvScan FieldStart [] (flds @ [[]]) rows cs
      else if c = nl then csvScan FieldStart [] [] (rows @ [flds @ [[]]]) cs
      else csvScan Unquoted [c] flds rows cs)"
| "csvScan Unquoted cur flds rows (c # cs) =
     (if c = CHR '','' then csvScan FieldStart [] (flds @ [cur]) rows cs
      else if c = nl then csvScan FieldStart [] [] (rows @ [flds @ [cur]]) cs
      else csvScan Unquoted (cur @ [c]) flds rows cs)"
| "csvScan Quoted cur flds rows (c # cs) =
     (if c = dq then csvScan QuoteSeen cur flds rows cs
      else csvScan Quoted (cur @ [c]) flds rows cs)"
| "csvScan QuoteSeen cur flds rows (c # cs) =
     (if c = dq then csvScan Quoted (cur @ [dq]) flds rows cs
      else if c = CHR '','' then csvScan FieldStart [] (flds @ [cur]) rows cs
      else if c = nl then csvScan FieldStart [] [] (rows @ [flds @ [cur]]) cs
      else csvScan Unquoted (cur @ [c]) flds rows cs)"

definition parseCsv :: "string \<Rightarrow> string list list" where
  "parseCsv s = csvScan FieldStart [] [] [] s"

text \<open>The table a list of records stands for: the names, then the values of each record.\<close>

definition recordValues :: "attendance \<Rightarrow> string list" where
  "recordValues r = map snd (entries r)"

definition recordTable :: "attendance list \<Rightarrow> string list list" where
  "recordTable rows = keysOf (hd rows) # map recordValues rows"

text \<open>
  The values the serializer writes so that the reader gives them back: a value with a comma
  or a line feed, which the serializer quotes, and otherwise a value that does not begin with
  a double quote.
\<close>

definition csvSafe :: "string \<Rightarrow> bool" where
  "csvSafe v = (CHR '','' \<in> set v \<or> nl \<in> set v \<or> v = [] \<or> hd v \<noteq> dq)"

text \<open>What the reader does at the end of a field, by the separator that ends it.\<close>

definition fieldEnd :: "char \<Rightarrow> string \<Rightarrow> string list \<Rightarrow> string list list \<Rightarrow> string \<Rightarrow> string list list" where
  "fieldEnd c v flds rows rest =
     (if c = CHR '','' then csvScan FieldStart [] (flds @ [v]) rows rest
      else csvScan FieldStart [] [] (rows @ [flds @ [v]]) rest)"

subsection \<open>Sample records\<close>

definition mkRecord :: "string \<Rightarrow> string \<Rightarrow> string \<Rightarrow> attendance" where
  "mkRecord d n k =
     \<lparr>Department = d, Name = n, EmployeeID = ''E-1'', AMFaceScan = ''5'', PMFaceScan = ''5'',
      Attendance = ''5'', HRAdj = [], KPILeave = ''0'', KPIPercent = k\<rparr>"

definition rec0 :: attendance where "rec0 = mkRecord ''A'' ''Aye'' ''0.95''"
definition rec1 :: attendance where "rec1 = mkRecord ''B'' ''Bo'' ''1''"
definition rec2 :: attendance where "rec2 = mkRecord ''A'' ''Cho, Jr.'' ''abc''"

text \<open>A record whose name is written in double quotes, and one of a department called \<^verbatim>\<open>constructor\<close>.\<close>

definition recQuoted :: attendance where
  "recQuoted = mkRecord ''A'' (quoted ''Bob'') ''1''"

definition recProto :: attendance where
  "recProto = mkRecord ''constructor'' ''Dee'' ''1''"

definition samplePlatform :: "(mail \<Rightarrow> string option) \<Rightarrow> platform" where
  "samplePlatform transport =
     \<lparr>dateString = ''20240101'', weekNum = ''W1'', fromDate_F = ''01-Jan-2024'',
      upToDate_F = ''07-Jan-2024'', mailApp = transport\<rparr>"

text \<open>A transport that fails for the mails to one address and delivers all others.\<close>

definition failsFor :: "string \<Rightarrow> mail \<Rightarrow> string option" where
  "failsFor address m = (if mailTo m = address then Some ''Invalid email'' else None)"

text \<open>
  A run with four records of three departments: \<^verbatim>\<open>A\<close> and \<^verbatim>\<open>B\<close> have a mapping, \<^verbatim>\<open>C\<close> has
  none, and the transport fails for the address of \<^verbatim>\<open>A\<close>.
\<close>

definition sampleRecords :: "attendance list" where
  "sampleRecords = [rec0, rec1, rec2, mkRecord ''C'' ''Cy'' ''1'']"

definition sampleEmails :: "string dict" where
  "sampleEmails = [(''A'', ''a@x.com''), (''B'', ''b@x.com'')]"


section \<open>Properties of the flattening transform\<close>

subsection \<open>The two loops as lists\<close>

lemma groupLoop_app:
  "groupLoop row sd gs acc = acc @ concat (map (\<lambda>g. groupLoop row sd [g] []) gs)"
proof (induction gs arbitrary: acc)
  case Nil
  show ?case by simp
next
  case (Cons g gs)
  show ?case
    by (simp add: Let_def Cons.IH [of "acc @ _"] Cons.IH [of acc])
qed

lemma groupLoop_groupOutput:
  "groupLoop row (slice row 0 STATIC_COLS) gs acc = acc @ concat (map (groupOutput row) gs)"
  using groupLoop_app [of row "slice row 0 STATIC_COLS" gs acc]
  by (simp add: groupOutput_def [abs_def])

lemma rowLoop_fst:
  "fst (rowLoop parse ld rows (acc, wm)) =
     acc @ concat (map (\<lambda>row. if processed parse ld row
        then concat (map (groupOutput row) [0..<NUMBER_OF_GROUPS]) else []) rows)"
proof (induction rows arbitrary: acc wm)
  case Nil
  show ?case by simp
next
  case (Cons row rows)
  show ?case
    by (simp add: Let_def processed_def Cons.IH groupLoop_groupOutput)
qed

text \<open>The watermark the loop leaves is a fold of \<open>wmStep\<close> over the rows it processes.\<close>

lemma rowLoop_snd:
  "snd (rowLoop parse ld rows (acc, wm)) =
     foldl (wmStep parse) wm (map (\<lambda>row. row ! 0) (filter (processed parse ld) rows))"
proof (induction rows arbitrary: acc wm)
  case Nil
  show ?case by simp
next
  case (Cons row rows)
  show ?case
    by (simp add: Let_def processed_def Cons.IH wmStep_def)
qed

subsection \<open>The watermark when every timestamp is a valid instant\<close>

lemma lastDateOf_falsy_time:
  assumes "\<not> truthy z1" "z1 \<noteq> CStr []"
  shows "getTime parse z1 = Some 0"
  using assms by (cases z1) (auto simp: timeClip_def)

lemma Max_insert_gt:
  fixes m t :: int
  assumes "finite S" "m < t"
  shows "Max (insert m (insert t S)) = Max (insert t S)"
proof -
  have "Max (insert m (insert t S)) = max m (Max (insert t S))"
    using assms by (intro Max_insert) auto
  moreover have "t \<le> Max (insert t S)"
    using assms by (intro Max_ge) auto
  ultimately show ?thesis using assms(2) by linarith
qed

lemma Max_insert_le:
  fixes m t :: int
  assumes "finite S" "\<not> m < t"
  shows "Max (insert m (insert t S)) = Max (insert m S)"
proof -
  have "Max (insert t (insert m S)) = max t (Max (insert m S))"
    using assms by (intro Max_insert) auto
  moreover have "m \<le> Max (insert m S)"
    using assms by (intro Max_ge) auto
  ultimately show ?thesis using assms(2) by (simp add: insert_commute)
qed

lemma wm_fold:
  assumes "\<forall>c\<in>set cs. truthy c \<and> getTime parse c \<noteq> None"
      and "getTime parse wm = Some m" and "wm \<noteq> CStr []"
  shows "getTime parse (foldl (wmStep parse) wm cs)
           = Some (Max (insert m (timeOf parse ` set cs)))
         \<and> foldl (wmStep parse) wm cs \<noteq> CStr []
         \<and> (foldl (wmStep parse) wm cs = wm \<or> foldl (wmStep parse) wm cs \<in> set cs)"
  using assms
proof (induction cs arbitrary: wm m)
  case Nil
  then show ?case by simp
next
  case (Cons c cs)
  from Cons.prems obtain t where t: "getTime parse c = Some t" and tc: "truthy c" by auto
  have cne: "c \<noteq> CStr []" using tc by auto
  have rest: "\<forall>c\<in>set cs. truthy c \<and> getTime parse c \<noteq> None" using Cons.prems by simp
  have tt: "timeOf parse c = t" using t by (simp add: timeOf_def)
  show ?case
  proof (cases "m < t")
    case True
    then have step: "wmStep parse wm c = c" using t Cons.prems by (simp add: wmStep_def)
    have mx: "Max (insert m (timeOf parse ` set (c # cs))) = Max (insert t (timeOf parse ` set cs))"
      using Max_insert_gt [OF _ True, of "timeOf parse ` set cs"] tt by simp
    from Cons.IH [OF rest t cne] show ?thesis using step mx by auto
  next
    case False
    then have step: "wmStep parse wm c = wm" using t Cons.prems by (simp add: wmStep_def)
    have mx: "Max (insert m (timeOf parse ` set (c # cs))) = Max (insert m (timeOf parse ` set cs))"
      using Max_insert_le [OF _ False, of "timeOf parse ` set cs"] tt by simp
    from Cons.IH [OF rest Cons.prems(2) Cons.prems(3)] show ?thesis using step mx by auto
  qed
qed

lemma lastDateOf_Some:
  assumes "truthy z1 \<longrightarrow> getTime parse z1 \<noteq> None"
  shows "\<exists>l. lastDateOf parse z1 = Some l"
  using assms by (auto simp: lastDateOf_def)

lemma getTime_lastDateOf:
  assumes "z1 \<noteq> CStr []"
  shows "getTime parse z1 = lastDateOf parse z1"
  using assms lastDateOf_falsy_time [of z1 parse] by (auto simp: lastDateOf_def)

lemma processed_eligible:
  assumes "validTimes parse z1 rows" "row \<in> set rows"
  shows "processed parse (lastDateOf parse z1) row = eligible parse z1 row"
proof -
  from assms(1) obtain l where l: "lastDateOf parse z1 = Some l"
    using lastDateOf_Some [of z1 parse] by (auto simp: validTimes_def)
  show ?thesis
  proof (cases "length row \<ge> EXPECTED_TOTAL_COLS \<and> truthy (row ! 0)")
    case True
    with assms obtain t where "getTime parse (row ! 0) = Some t"
      by (auto simp: validTimes_def list_all_iff)
    with True l show ?thesis by (auto simp: processed_def eligible_def)
  next
    case False
    then show ?thesis by (auto simp: processed_def eligible_def)
  qed
qed

lemma filter_processed_eligible:
  assumes "validTimes parse z1 rows"
  shows "filter (processed parse (lastDateOf parse z1)) rows = filter (eligible parse z1) rows"
  using processed_eligible [OF assms] by (intro filter_cong) auto

lemma eligible_time:
  assumes "eligible parse z1 row"
  shows "\<exists>t l. getTime parse (row ! 0) = Some t \<and> lastDateOf parse z1 = Some l \<and> l < t \<and> truthy (row ! 0)"
proof -
  from assms have g: "num_gt (getTime parse (row ! 0)) (lastDateOf parse z1)" and t: "truthy (row ! 0)"
    by (auto simp: eligible_def)
  then show ?thesis
    by (cases "getTime parse (row ! 0)"; cases "lastDateOf parse z1") auto
qed

lemma watermark_fold_eligible:
  assumes el: "\<forall>row\<in>set E. eligible parse z1 row" and ne: "E \<noteq> []"
  defines "w \<equiv> foldl (wmStep parse) z1 (map (\<lambda>row. row ! 0) E)"
  shows "w \<in> (\<lambda>row. row ! 0) ` set E
       \<and> getTime parse w = Some (Max ((\<lambda>row. timeOf parse (row ! 0)) ` set E))"
proof -
  let ?cs = "map (\<lambda>row. row ! 0) E"
  have cs: "\<forall>c\<in>set ?cs. truthy c \<and> getTime parse c \<noteq> None"
    using el eligible_time by fastforce
  from ne obtain r E' where E: "E = r # E'" by (cases E) auto
  from el E eligible_time [of parse z1 r] obtain t l where
    t: "getTime parse (r ! 0) = Some t" and l: "lastDateOf parse z1 = Some l" and lt: "l < t"
    and tr: "truthy (r ! 0)" by auto
  have img: "timeOf parse ` set ?cs = (\<lambda>row. timeOf parse (row ! 0)) ` set E"
    by (simp add: image_image)
  have nonempty: "timeOf parse ` set ?cs \<noteq> {}" using ne by simp
  have big: "l < Max (timeOf parse ` set ?cs)"
  proof -
    have "timeOf parse (r ! 0) \<le> Max (timeOf parse ` set ?cs)"
      by (rule Max_ge) (auto simp: E)
    then show ?thesis using t lt by (simp add: timeOf_def)
  qed
  show ?thesis
  proof (cases "z1 = CStr []")
    case True
    have first: "wmStep parse z1 (r ! 0) = r ! 0" using True by (simp add: wmStep_def)
    have rne: "r ! 0 \<noteq> CStr []" using tr by auto
    have cs': "\<forall>c\<in>set (map (\<lambda>row. row ! 0) E'). truthy c \<and> getTime parse c \<noteq> None"
      using cs E by simp
    have w: "w = foldl (wmStep parse) (r ! 0) (map (\<lambda>row. row ! 0) E')"
      using first by (simp add: w_def E)
    have tt: "timeOf parse (r ! 0) = t" using t by (simp add: timeOf_def)
    from wm_fold [OF cs' t rne] show ?thesis
      unfolding w [symmetric] using tt by (auto simp: E image_image)
  next
    case False
    then have z: "getTime parse z1 = Some l" using getTime_lastDateOf [OF False, of parse] l by simp
    from wm_fold [OF cs z False] have
      tm: "getTime parse w = Some (Max (insert l (timeOf parse ` set ?cs)))"
      and mem: "w = z1 \<or> w \<in> set ?cs" by (auto simp: w_def)
    have fin: "finite (timeOf parse ` set ?cs)" by simp
    have mx: "Max (insert l (timeOf parse ` set ?cs)) = Max (timeOf parse ` set ?cs)"
    proof -
      have "Max (insert l (timeOf parse ` set ?cs)) = max l (Max (timeOf parse ` set ?cs))"
        using fin nonempty by (rule Max_insert)
      then show ?thesis using big by linarith
    qed
    have "w \<noteq> z1"
    proof
      assume "w = z1"
      with tm z mx have "l = Max (timeOf parse ` set ?cs)" by simp
      then show False using big by simp
    qed
    with mem tm mx img show ?thesis by auto
  qed
qed

lemma rowLoop_none:
  assumes "\<forall>row\<in>set rows. \<not> processed parse ld row"
  shows "rowLoop parse ld rows (acc, wm) = (acc, wm)"
  using assms
proof (induction rows)
  case Nil
  show ?case by simp
next
  case (Cons row rows)
  then show ?case by (auto simp: processed_def Let_def)
qed

lemma watermark_loop:
  fixes acc :: "cell list list"
  assumes v: "validTimes parse z1 rows"
  defines "E \<equiv> filter (eligible parse z1) rows"
  defines "w \<equiv> snd (rowLoop parse (lastDateOf parse z1) rows (acc, z1))"
  shows "(E = [] \<longrightarrow> w = z1) \<and>
         (E \<noteq> [] \<longrightarrow> w \<in> (\<lambda>row. row ! 0) ` set E
              \<and> getTime parse w = Some (Max ((\<lambda>row. timeOf parse (row ! 0)) ` set E)))"
proof -
  have w: "w = foldl (wmStep parse) z1 (map (\<lambda>row. row ! 0) E)"
    by (simp add: w_def E_def rowLoop_snd filter_processed_eligible [OF v])
  have el: "\<forall>row\<in>set E. eligible parse z1 row" by (simp add: E_def)
  show ?thesis
  proof (cases "E = []")
    case True
    then show ?thesis using w by simp
  next
    case False
    from watermark_fold_eligible [OF el False] show ?thesis using w False by simp
  qed
qed

lemma second_run_loop:
  assumes v: "validTimes parse z1 rows"
  defines "w \<equiv> snd (rowLoop parse (lastDateOf parse z1) rows ([], z1))"
  shows "rowLoop parse (lastDateOf parse w) rows ([], w) = ([], w)"
proof -
  let ?E = "filter (eligible parse z1) rows"
  have wl: "(?E = [] \<longrightarrow> w = z1) \<and>
         (?E \<noteq> [] \<longrightarrow> w \<in> (\<lambda>row. row ! 0) ` set ?E
              \<and> getTime parse w = Some (Max ((\<lambda>row. timeOf parse (row ! 0)) ` set ?E)))"
    unfolding w_def by (rule watermark_loop [OF v])
  have "\<forall>row\<in>set rows. \<not> processed parse (lastDateOf parse w) row"
  proof (cases "?E = []")
    case True
    then have "w = z1" using wl by simp
    moreover have "\<forall>row\<in>set rows. \<not> eligible parse z1 row"
      using True by (simp add: filter_empty_conv)
    ultimately show ?thesis using processed_eligible [OF v] by simp
  next
    case False
    let ?M = "Max ((\<lambda>row. timeOf parse (row ! 0)) ` set ?E)"
    from False wl obtain r where r: "r \<in> set ?E" and wr: "w = r ! 0"
      and tm: "getTime parse w = Some ?M" by auto
    from r have "eligible parse z1 r" by simp
    from eligible_time [OF this] wr obtain l where l: "lastDateOf parse z1 = Some l"
      and lM: "l < ?M" and tw: "truthy w" using tm by auto
    have ld: "lastDateOf parse w = Some ?M" using tw tm by (simp add: lastDateOf_def)
    show ?thesis
    proof
      fix row assume row: "row \<in> set rows"
      show "\<not> processed parse (lastDateOf parse w) row"
      proof
        assume p: "processed parse (lastDateOf parse w) row"
        then have len: "length row \<ge> EXPECTED_TOTAL_COLS" and tr: "truthy (row ! 0)"
          and nle: "\<not> num_le (getTime parse (row ! 0)) (Some ?M)"
          by (auto simp: processed_def ld)
        from v row len tr obtain t where t: "getTime parse (row ! 0) = Some t"
          by (auto simp: validTimes_def list_all_iff)
        with nle have Mt: "?M < t" by simp
        then have "eligible parse z1 row" using len tr t l lM by (simp add: eligible_def)
        then have "row \<in> set ?E" using row by simp
        then have "timeOf parse (row ! 0) \<le> ?M" by (intro Max_ge) auto
        then show False using Mt t by (simp add: timeOf_def)
      qed
    qed
  qed
  then show ?thesis by (rule rowLoop_none)
qed

lemma watermarkAfter_eq:
  "watermarkAfter parse data z1 =
     (if length data \<le> 1 then z1
      else snd (rowLoop parse (lastDateOf parse z1) (drop 1 data) ([], z1)))"
  by (simp add: watermarkAfter_def flattenTransactionsAudit_def Let_def writeRows_def
      split: prod.splits)

lemma validTimes_sample: "validTimes unparsed (CStr []) (drop 1 sampleData)"
  by code_simp

text \<open>
  When every timestamp read is a valid instant, the watermark after a run is unchanged
  if no row was eligible, and otherwise is the timestamp cell of an eligible row whose
  instant is the maximum over the eligible rows.
\<close>

theorem watermark_valid:
  assumes "validTimes parse z1 (drop 1 data)"
  shows "(filter (eligible parse z1) (drop 1 data) = [] \<longrightarrow> watermarkAfter parse data z1 = z1)
       \<and> (filter (eligible parse z1) (drop 1 data) \<noteq> [] \<longrightarrow>
            watermarkAfter parse data z1 \<in> (\<lambda>row. row ! 0) ` set (filter (eligible parse z1) (drop 1 data))
          \<and> getTime parse (watermarkAfter parse data z1)
              = Some (Max ((\<lambda>row. timeOf parse (row ! 0)) ` set (filter (eligible parse z1) (drop 1 data)))))"
proof (cases "length data \<le> 1")
  case True
  then show ?thesis by (simp add: watermarkAfter_eq)
next
  case False
  then show ?thesis
    using watermark_loop [OF assms, of "[]"] by (simp add: watermarkAfter_eq)
qed

theorem watermark_valid_witness:
  "validTimes unparsed (CStr []) (drop 1 sampleData)
   \<and> filter (eligible unparsed (CStr [])) (drop 1 sampleData) = [sampleRow]
   \<and> watermarkAfter unparsed sampleData (CStr []) = CDate 1000
   \<and> getTime unparsed (watermarkAfter unparsed sampleData (CStr [])) = Some 1000"
proof -
  have e: "filter (eligible unparsed (CStr [])) (drop 1 sampleData) = [sampleRow]" by code_simp
  have s0: "sampleRow ! 0 = CDate 1000" by code_simp
  have w: "watermarkAfter unparsed sampleData (CStr []) = CDate 1000"
    using watermark_valid [OF validTimes_sample] unfolding e by (simp add: s0)
  show ?thesis using validTimes_sample e w by simp
qed

text \<open>
  When every timestamp read is a valid instant, a second run on the same source table,
  from the watermark the first run left, emits no row and leaves the watermark as it is.
\<close>

theorem idempotent_valid:
  assumes "validTimes parse z1 (drop 1 data)"
  shows "emittedRows parse data (watermarkAfter parse data z1) = []
       \<and> watermarkAfter parse data (watermarkAfter parse data z1) = watermarkAfter parse data z1"
  using second_run_loop [OF assms]
  by (simp add: watermarkAfter_eq emittedRows_def)

theorem idempotent_valid_witness:
  "validTimes unparsed (CStr []) (drop 1 sampleData)
   \<and> emittedRows unparsed sampleData (CStr []) = [sampleOut]
   \<and> emittedRows unparsed sampleData (watermarkAfter unparsed sampleData (CStr [])) = []
   \<and> watermarkAfter unparsed sampleData (watermarkAfter unparsed sampleData (CStr []))
       = watermarkAfter unparsed sampleData (CStr [])"
proof -
  have "emittedRows unparsed sampleData (CStr []) = [sampleOut]" by code_simp
  with idempotent_valid [OF validTimes_sample] validTimes_sample show ?thesis by simp
qed

subsection \<open>Width and content of the emitted rows\<close>

lemma slice_length:
  "b \<le> length xs \<Longrightarrow> length (slice xs a b) = b - a"
  by (simp add: slice_def)

lemma auditGroup_length:
  assumes "length row \<ge> EXPECTED_TOTAL_COLS" "g < NUMBER_OF_GROUPS"
  shows "length (auditGroup row g) = 17"
proof -
  have "4 + g * 17 + 17 \<le> length row"
    using assms by (simp add: EXPECTED_TOTAL_COLS_def NUMBER_OF_GROUPS_def STATIC_COLS_def AUDIT_GROUP_SIZE_def)
  then show ?thesis
    by (simp add: auditGroup_def slice_def STATIC_COLS_def AUDIT_GROUP_SIZE_def)
qed

lemma groupOutput_eq:
  "groupOutput row g =
     (if list_all isBlank (auditGroup row g) then [] else [take 4 row @ auditGroup row g])"
  by (simp add: groupOutput_def auditGroup_def Let_def slice_def STATIC_COLS_def)

lemma emittedRows_concat:
  "emittedRows parse data z1 =
     concat (map (\<lambda>row. if processed parse (lastDateOf parse z1) row
        then concat (map (groupOutput row) [0..<NUMBER_OF_GROUPS]) else []) (drop 1 data))"
  by (cases "length data \<le> 1") (simp_all add: emittedRows_def rowLoop_fst)

text \<open>
  Claim C1 as stated: every output row has 19 values, the 4 static cells and 15 of the
  17 cells of the group, its first and last cell dropped. It fails: for the sample
  table the one emitted row has 21 values and keeps the first cell \<^verbatim>\<open>TR-1\<close> and the
  last cell \<^verbatim>\<open>ok\<close> of its group.
\<close>

theorem flat_row_width_counterexample:
  "emittedRows unparsed sampleData (CStr []) = [sampleOut]
   \<and> length sampleOut = 21
   \<and> \<not> list_all (\<lambda>r. length r = 19) (emittedRows unparsed sampleData (CStr []))"
  by code_simp

text \<open>
  Claim C1, amended: the header row has 21 column labels, and every output row has 21
  values: the 4 static cells of a source row followed by all 17 cells of one of its
  groups, the first and the last cell included.
\<close>

theorem flat_row_width:
  "length auditHeaders = 21 \<and>
   (r \<in> set (emittedRows parse data z1) \<longrightarrow>
      length r = 21 \<and>
      (\<exists>row \<in> set (drop 1 data). \<exists>g < NUMBER_OF_GROUPS.
          length (take 4 row) = 4 \<and> length (auditGroup row g) = 17
        \<and> r = take 4 row @ auditGroup row g))"
proof (intro conjI impI)
  show "length auditHeaders = 21" by (simp add: auditHeaders_def)
next
  assume "r \<in> set (emittedRows parse data z1)"
  then obtain row g where row: "row \<in> set (drop 1 data)"
    and pr: "processed parse (lastDateOf parse z1) row"
    and g: "g < NUMBER_OF_GROUPS" and r: "r \<in> set (groupOutput row g)"
    by (auto simp: emittedRows_concat split: if_splits)
  from pr have len: "length row \<ge> EXPECTED_TOTAL_COLS" by (simp add: processed_def)
  then have l4: "length (take 4 row) = 4" by (simp add: EXPECTED_TOTAL_COLS_def STATIC_COLS_def AUDIT_GROUP_SIZE_def NUMBER_OF_GROUPS_def)
  have l17: "length (auditGroup row g) = 17" by (rule auditGroup_length [OF len g])
  from r have req: "r = take 4 row @ auditGroup row g"
    by (simp add: groupOutput_eq split: if_splits)
  show "length r = 21" using req l4 l17 by simp
  show "\<exists>row \<in> set (drop 1 data). \<exists>g < NUMBER_OF_GROUPS.
          length (take 4 row) = 4 \<and> length (auditGroup row g) = 17
        \<and> r = take 4 row @ auditGroup row g"
    using row g l4 l17 req by blast
qed

text \<open>The amended claim at the sample table.\<close>

theorem flat_row_width_witness:
  "sampleOut \<in> set (emittedRows unparsed sampleData (CStr [])) \<and> length sampleOut = 21
   \<and> length auditHeaders = 21"
proof -
  have m: "sampleOut \<in> set (emittedRows unparsed sampleData (CStr []))" by code_simp
  with flat_row_width [of sampleOut unparsed sampleData "CStr []"] show ?thesis by blast
qed

subsection \<open>One output row for each non-empty group\<close>


lemma rowOutput_eq:
  "rowOutput parse z1 row =
     (if processed parse (lastDateOf parse z1) row
      then concat (map (groupOutput row) [0..<NUMBER_OF_GROUPS]) else [])"
  using rowLoop_fst [of parse "lastDateOf parse z1" "[row]" "[]" z1]
  by (simp add: rowOutput_def del: rowLoop.simps)

text \<open>
  A row whose timestamp is not newer than the watermark contributes no output row.
\<close>

theorem stale_row_skipped:
  assumes "num_le (getTime parse (row ! 0)) (lastDateOf parse z1)"
  shows "rowOutput parse z1 row = []"
  using assms by (simp add: rowOutput_eq processed_def)

theorem stale_row_skipped_witness:
  "num_le (getTime unparsed (sampleRow ! 0)) (lastDateOf unparsed (CDate 1000))
   \<and> rowOutput unparsed (CDate 1000) sampleRow = []"
proof -
  have h: "num_le (getTime unparsed (sampleRow ! 0)) (lastDateOf unparsed (CDate 1000))"
    by code_simp
  from stale_row_skipped [OF h] h show ?thesis by simp
qed



subsection \<open>Timestamps that are no valid instant\<close>

text \<open>
  Claim C3 at a failing input. The source table has one data row whose timestamp cell
  holds the text \<^verbatim>\<open>n/a\<close>, and the watermark cell is empty. The first run emits the
  row and stores \<^verbatim>\<open>n/a\<close> as the watermark; a second run from that watermark emits the
  row again, as does every later run, also with further rows in the table. The same
  happens for the number \<^verbatim>\<open>1e16\<close> in the timestamp cell.
\<close>

theorem rerun_emits_again:
  "watermarkAfter unparsed [headerRow, nanRow] (CStr []) = CStr ''n/a''
   \<and> emittedRows unparsed [headerRow, nanRow] (CStr []) = [CStr ''n/a'' # drop 1 sampleOut]
   \<and> emittedRows unparsed [headerRow, nanRow] (watermarkAfter unparsed [headerRow, nanRow] (CStr []))
        = [CStr ''n/a'' # drop 1 sampleOut]
   \<and> emittedRows unparsed [headerRow, nanRow, sampleRow] (CStr ''n/a'')
        = [CStr ''n/a'' # drop 1 sampleOut, sampleOut]
   \<and> watermarkAfter unparsed [headerRow, hugeRow] (CStr []) = CNum 10000000000000000
   \<and> emittedRows unparsed [headerRow, hugeRow] (CNum 10000000000000000)
        = [CNum 10000000000000000 # drop 1 sampleOut]"
  by code_simp

text \<open>
  Claim C5 at a failing input. The watermark cell is empty and the table holds the row
  with the timestamp \<^verbatim>\<open>n/a\<close> and then the sample row, the only eligible row, whose
  timestamp is the instant 1000. The run leaves \<^verbatim>\<open>n/a\<close> as the watermark, which is
  no instant at all, and not the timestamp of the eligible row. With an earlier valid
  watermark the row with \<^verbatim>\<open>n/a\<close> is processed although it is not eligible.
\<close>

theorem watermark_not_maximum:
  "watermarkAfter unparsed [headerRow, nanRow, sampleRow] (CStr []) = CStr ''n/a''
   \<and> getTime unparsed (CStr ''n/a'') = None
   \<and> filter (eligible unparsed (CStr [])) [nanRow, sampleRow] = [sampleRow]
   \<and> sampleRow ! 0 = CDate 1000
   \<and> watermarkAfter unparsed [headerRow, hugeRow, sampleRow] (CStr []) = CNum 10000000000000000
   \<and> getTime unparsed (CNum 10000000000000000) = None
   \<and> emittedRows unparsed [headerRow, nanRow] (CDate 500) = [CStr ''n/a'' # drop 1 sampleOut]
   \<and> watermarkAfter unparsed [headerRow, nanRow] (CDate 500) = CDate 500"
  by code_simp

section \<open>Properties of the weekly snapshot mailer\<close>

lemma digitsOf_nonempty: "digitsOf n \<noteq> []"
  by (subst digitsOf.simps) simp

lemma posToString_nonempty: "posToString m e \<noteq> []"
  by (simp add: posToString_def Let_def digitsOf_nonempty split: prod.splits)

lemma numToString_nonempty: "numToString x \<noteq> []"
  by (cases x) (simp_all add: posToString_nonempty)

lemma formatDate_nonempty: "formatDate calendar t \<noteq> []"
  by (simp add: formatDate_def Let_def)

text \<open>The test and the text of the code against the notions of the dedup rule.\<close>

lemma truthy_presentCell: "truthy c = presentCell c"
  by (cases c) (auto simp: presentCell_def nonEmptyCell_def)

lemma currentTimestamp_canonicalForm:
  assumes "truthy c"
  shows "currentTimestampOf calendar c = Inr (canonicalForm calendar c)"
  using assms by (cases c) (simp_all add: canonicalForm_def)

lemma canonicalForm_nonempty:
  assumes "truthy c"
  shows "canonicalForm calendar c \<noteq> []"
  using assms
  by (cases c) (simp_all add: canonicalForm_def formatDate_nonempty numToString_nonempty)

text \<open>
  Claim C6 as stated: a send is attempted if and only if the timestamp cell is
  non-empty and its canonical form differs from the marker, and the marker is updated
  exactly when the send succeeds. It fails at two inputs. A timestamp cell that holds
  the number \<^verbatim>\<open>0\<close> (or \<^verbatim>\<open>FALSE\<close>) is non-empty and its canonical form \<^verbatim>\<open>0\<close> differs
  from a marker that was never set, yet no send is attempted. And with a date in the
  cell, a transport that delivers and a property store that refuses the write, the
  send succeeds and the marker is not updated.
\<close>

theorem snapshot_dedup_counterexample:
  "nonEmptyCell (CNum 0) \<and> canonicalForm sampleCalendar (CNum 0) = ''0''
   \<and> Some (canonicalForm sampleCalendar (CNum 0)) \<noteq> None
   \<and> sendFormattedEmail sampleCalendar mailOk propOk ''msg'' (CNum 0) None
       = Inr ([Logged ''No timestamp found, email not sent.''], None)
   \<and> \<not> sendAttempted [Logged ''No timestamp found, email not sent.'' :: string event]
   \<and> nonEmptyCell (CBool False) \<and> canonicalForm sampleCalendar (CBool False) = ''false''
   \<and> sendFormattedEmail sampleCalendar mailOk propOk ''msg'' (CBool False) None
       = Inr ([Logged ''No timestamp found, email not sent.''], None)
   \<and> sendFormattedEmail sampleCalendar mailOk propFails ''msg'' (CDate 5) None
       = Inr ([SendEmail ''msg'', Logged ''Email sent successfully.'',
               SetProperty ''lastSentTicketTimestamp'' ''01-01-2024 00:00:00'',
               Logged ''!Error sending weekly audit email: Exception: Argument too large: value''],
              None)
   \<and> sendSucceeded mailOk ''msg''
         [SendEmail ''msg'', Logged ''Email sent successfully.'',
          SetProperty ''lastSentTicketTimestamp'' ''01-01-2024 00:00:00'',
          Logged ''!Error sending weekly audit email: Exception: Argument too large: value'']"
  by code_simp

text \<open>
  Claim C6, amended. For every timestamp cell, marker, mail transport and property
  store, a run ends without an exception, and:
  a send is attempted if and only if the timestamp cell is non-empty, is neither the
  number \<^verbatim>\<open>0\<close> nor \<^verbatim>\<open>FALSE\<close>, and its canonical string form (date-formatted if
  date-typed, otherwise its raw string form) differs from the stored marker;
  the marker after the run is that canonical form exactly when the send succeeded and
  the write of the marker returned, and it is the old marker when the send threw, when
  the write threw, or when no send was attempted.
\<close>

theorem snapshot_dedup:
  "\<exists>evs marker'.
      sendFormattedEmail calendar transport store message c marker = Inr (evs, marker')
    \<and> sendAttempted evs = (presentCell c \<and> Some (canonicalForm calendar c) \<noteq> marker)
    \<and> marker' =
        (if sendSucceeded transport message evs
            \<and> store ''lastSentTicketTimestamp'' (canonicalForm calendar c) = None
         then Some (canonicalForm calendar c) else marker)"
proof (cases "truthy c")
  case False
  then show ?thesis
    by (simp add: sendFormattedEmail_def sendAttempted_def sendSucceeded_def truthy_presentCell)
next
  case True
  let ?s = "canonicalForm calendar c"
  have s: "currentTimestampOf calendar c = Inr ?s"
    by (rule currentTimestamp_canonicalForm [OF True])
  have ne: "?s \<noteq> []" by (rule canonicalForm_nonempty [OF True])
  have p: "presentCell c" using True by (simp add: truthy_presentCell)
  show ?thesis
  proof (cases "Some ?s = marker")
    case same: True
    then show ?thesis using True s p
      by (simp add: sendFormattedEmail_def sendAttempted_def sendSucceeded_def)
  next
    case diff: False
    show ?thesis
    proof (cases "transport message")
      case None
      then show ?thesis using True s ne p diff
        by (cases "store ''lastSentTicketTimestamp'' ?s")
           (simp_all add: sendFormattedEmail_def sendAttempted_def sendSucceeded_def)
    next
      case (Some e)
      then show ?thesis using True s ne p diff
        by (simp add: sendFormattedEmail_def sendAttempted_def sendSucceeded_def)
    qed
  qed
qed

text \<open>
  Five runs: a new timestamp delivered, a new timestamp with a failing transport, an
  unchanged timestamp, an empty timestamp cell, and a text in the timestamp cell, which
  is its own canonical form.
\<close>

lemma snapshot_dedup_examples:
  "sendFormattedEmail sampleCalendar mailOk propOk ''msg'' (CDate 5) None
     = Inr ([SendEmail ''msg'', Logged ''Email sent successfully.'',
             SetProperty ''lastSentTicketTimestamp'' ''01-01-2024 00:00:00''],
            Some ''01-01-2024 00:00:00'')
   \<and> sendFormattedEmail sampleCalendar mailFails propOk ''msg'' (CDate 5) None
     = Inr ([SendEmail ''msg'',
             Logged ''!Error sending weekly audit email: Exception: Service invoked too many times''],
            None)
   \<and> sendFormattedEmail sampleCalendar mailOk propOk ''msg'' (CDate 5) (Some ''01-01-2024 00:00:00'')
     = Inr ([Logged ''No new timestamp or timestamp already processed!''],
            Some ''01-01-2024 00:00:00'')
   \<and> sendFormattedEmail sampleCalendar mailOk propOk ''msg'' (CStr []) (Some ''x'')
     = Inr ([Logged ''No timestamp found, email not sent.''], Some ''x'')
   \<and> sendFormattedEmail sampleCalendar mailOk propOk ''msg'' (CStr ''week 12'') (Some ''week 11'')
     = Inr ([SendEmail ''msg'', Logged ''Email sent successfully.'',
             SetProperty ''lastSentTicketTimestamp'' ''week 12''],
            Some ''week 12'')
   \<and> canonicalForm sampleCalendar (CStr ''week 12'') = ''week 12''
   \<and> canonicalForm sampleCalendar (CDate 5) = ''01-01-2024 00:00:00''
   \<and> canonicalForm sampleCalendar (CNum 45000) = ''45000''"
  by code_simp

section \<open>Properties of the department attendance mailer\<close>

subsection \<open>Grouping\<close>

lemma map_of_objSet: "map_of (objSet obj k v) = (map_of obj)(k \<mapsto> v)"
  by (induction obj) (auto simp: fun_eq_iff)

lemma keys_objSet:
  "map fst (objSet obj k v) = (if k \<in> set (map fst obj) then map fst obj else map fst obj @ [k])"
  by (induction obj) force+

lemma set_objSet:
  "set (objSet obj k v) \<subseteq> insert (k, v) (set obj)"
  by (induction obj) (auto split: if_splits)

lemma objSet_twice: "objSet (objSet obj k v) k w = objSet obj k w"
  by (induction obj) auto

lemma goodDict_objSet:
  assumes "goodDict g" "k \<noteq> []" "k \<notin> set objectPrototypeKeys" "rs \<noteq> []"
  shows "goodDict (objSet g k rs)"
proof -
  have d: "distinct (map fst (objSet g k rs))"
    using assms(1) by (simp add: goodDict_def keys_objSet)
  have "\<forall>p\<in>set (objSet g k rs). case p of (k, rs) \<Rightarrow> k \<noteq> [] \<and> k \<notin> set objectPrototypeKeys \<and> rs \<noteq> []"
  proof
    fix p assume "p \<in> set (objSet g k rs)"
    with set_objSet [of g k rs] have "p = (k, rs) \<or> p \<in> set g" by auto
    with assms show "case p of (k, rs) \<Rightarrow> k \<noteq> [] \<and> k \<notin> set objectPrototypeKeys \<and> rs \<noteq> []"
      by (auto simp: goodDict_def list_all_iff)
  qed
  with d show ?thesis by (simp add: goodDict_def list_all_iff)
qed

lemma goodDict_lookup:
  assumes "goodDict g" "map_of g k = Some rs"
  shows "k \<noteq> [] \<and> k \<notin> set objectPrototypeKeys \<and> rs \<noteq> []"
proof -
  from assms(2) have "(k, rs) \<in> set g" by (rule map_of_SomeD)
  with assms(1) show ?thesis by (auto simp: goodDict_def list_all_iff)
qed

lemma groupStep_cases:
  assumes "goodDict acc"
  shows "groupStep acc row =
     (if Department row = [] then Inr acc
      else if Department row \<in> set objectPrototypeKeys
           then Inl (TypeError ''acc[department].push is not a function'')
           else Inr (objSet acc (Department row) (rowsOf acc (Department row) @ [row])))"
proof (cases "map_of acc (Department row)")
  case None
  show ?thesis
  proof (cases "Department row \<in> set objectPrototypeKeys")
    case True
    with None show ?thesis by (simp add: groupStep_def objGet_def Let_def)
  next
    case False
    with None show ?thesis
      by (simp add: groupStep_def objGet_def Let_def map_of_objSet rowsOf_def objSet_twice)
  qed
next
  case (Some rs)
  from goodDict_lookup [OF assms Some] Some show ?thesis
    by (simp add: groupStep_def objGet_def Let_def rowsOf_def)
qed

lemma groupStep_good:
  assumes "goodDict acc" "groupStep acc row = Inr acc'"
  shows "goodDict acc'"
  using assms goodDict_objSet [of acc "Department row" "rowsOf acc (Department row) @ [row]"]
  by (auto simp: groupStep_cases split: if_splits)

lemma reduceRows_good:
  assumes "goodDict acc" "reduceRows rows acc = Inr g"
  shows "goodDict g"
  using assms
proof (induction rows arbitrary: acc)
  case Nil
  then show ?case by simp
next
  case (Cons row rows)
  then show ?case
    by (auto split: sum.splits dest: groupStep_good)
qed

lemma reduceRows_content:
  assumes "goodDict acc" "\<forall>r\<in>set rows. Department r \<notin> set objectPrototypeKeys"
  shows "\<exists>g. reduceRows rows acc = Inr g \<and>
           (\<forall>d. rowsOf g d = rowsOf acc d @ (if d = [] then [] else filter (\<lambda>r. Department r = d) rows))"
  using assms
proof (induction rows arbitrary: acc)
  case Nil
  then show ?case by simp
next
  case (Cons row rows)
  show ?case
  proof (cases "Department row = []")
    case True
    then have s: "groupStep acc row = Inr acc" using Cons.prems by (simp add: groupStep_cases)
    from Cons.IH [OF Cons.prems(1)] Cons.prems(2) obtain g where
      "reduceRows rows acc = Inr g"
      "\<forall>d. rowsOf g d = rowsOf acc d @ (if d = [] then [] else filter (\<lambda>r. Department r = d) rows)"
      by auto
    then show ?thesis using True s by auto
  next
    case False
    let ?d = "Department row"
    let ?acc = "objSet acc ?d (rowsOf acc ?d @ [row])"
    have np: "?d \<notin> set objectPrototypeKeys" using Cons.prems by simp
    have s: "groupStep acc row = Inr ?acc" using Cons.prems False np by (simp add: groupStep_cases)
    have good: "goodDict ?acc" using goodDict_objSet [OF Cons.prems(1) False np] by simp
    from Cons.IH [OF good] Cons.prems(2) obtain g where
      g: "reduceRows rows ?acc = Inr g"
      and c: "\<forall>d. rowsOf g d = rowsOf ?acc d @ (if d = [] then [] else filter (\<lambda>r. Department r = d) rows)"
      by auto
    have r: "\<And>d. rowsOf ?acc d = (if d = ?d then rowsOf acc ?d @ [row] else rowsOf acc d)"
      by (simp add: rowsOf_def map_of_objSet)
    have "\<forall>d. rowsOf g d = rowsOf acc d @ (if d = [] then [] else filter (\<lambda>r. Department r = d) (row # rows))"
      using c r False by auto
    then show ?thesis using s g by auto
  qed
qed

lemma goodDict_empty: "goodDict []"
  by (simp add: goodDict_def)

lemma goodDict_map_of:
  assumes "goodDict g"
  shows "map_of g d = (if rowsOf g d = [] then None else Some (rowsOf g d))"
proof (cases "map_of g d")
  case None
  then show ?thesis by (simp add: rowsOf_def)
next
  case (Some rs)
  with goodDict_lookup [OF assms Some] show ?thesis by (simp add: rowsOf_def)
qed

text \<open>
  When no record's department is the name of an inherited member, grouping returns an
  object that maps every non-empty department name of the input to its records in
  source order, and no other name.
\<close>

theorem grouping_total:
  assumes "\<forall>r\<in>set rows. Department r \<notin> set objectPrototypeKeys"
  shows "\<exists>g. groupRowsByDepartment rows = Inr g \<and> distinct (map fst g)
          \<and> (\<forall>d. map_of g d =
                 (if d \<noteq> [] \<and> d \<in> Department ` set rows
                  then Some (filter (\<lambda>r. Department r = d) rows) else None))"
proof -
  from reduceRows_content [OF goodDict_empty assms] obtain g where
    g: "reduceRows rows [] = Inr g"
    and c: "\<forall>d. rowsOf g d = (if d = [] then [] else filter (\<lambda>r. Department r = d) rows)"
    by (auto simp: rowsOf_def)
  have good: "goodDict g" by (rule reduceRows_good [OF goodDict_empty g])
  have "\<And>d. (filter (\<lambda>r. Department r = d) rows = []) = (d \<notin> Department ` set rows)"
    by (auto simp: filter_empty_conv)
  then have "\<forall>d. map_of g d =
                 (if d \<noteq> [] \<and> d \<in> Department ` set rows
                  then Some (filter (\<lambda>r. Department r = d) rows) else None)"
    using goodDict_map_of [OF good] c by auto
  with g good show ?thesis by (auto simp: groupRowsByDepartment_def goodDict_def)
qed



theorem grouping_total_witness:
  "groupRowsByDepartment [rec0, rec1, rec2] = Inr [(''A'', [rec0, rec2]), (''B'', [rec1])]
   \<and> map_of [(''A'', [rec0, rec2]), (''B'', [rec1])] ''A''
       = Some (filter (\<lambda>r. Department r = ''A'') [rec0, rec1, rec2])"
proof -
  have h: "\<forall>r\<in>set [rec0, rec1, rec2]. Department r \<notin> set objectPrototypeKeys" by code_simp
  have e: "groupRowsByDepartment [rec0, rec1, rec2] = Inr [(''A'', [rec0, rec2]), (''B'', [rec1])]"
    by code_simp
  have a: "''A'' \<noteq> [] \<and> ''A'' \<in> Department ` set [rec0, rec1, rec2]" by code_simp
  from grouping_total [OF h] obtain g where
    g: "groupRowsByDepartment [rec0, rec1, rec2] = Inr g"
    and m: "\<forall>d. map_of g d = (if d \<noteq> [] \<and> d \<in> Department ` set [rec0, rec1, rec2]
                 then Some (filter (\<lambda>r. Department r = d) [rec0, rec1, rec2]) else None)"
    by blast
  from g e have gl: "g = [(''A'', [rec0, rec2]), (''B'', [rec1])]" by (simp only: sum.inject)
  from m have "map_of g ''A'' = (if ''A'' \<noteq> [] \<and> ''A'' \<in> Department ` set [rec0, rec1, rec2]
                 then Some (filter (\<lambda>r. Department r = ''A'') [rec0, rec1, rec2]) else None)"
    by (rule spec)
  with a have "map_of g ''A'' = Some (filter (\<lambda>r. Department r = ''A'') [rec0, rec1, rec2])"
    by (simp only: if_True simp_thms)
  with e show ?thesis by (simp only: gl simp_thms)
qed

text \<open>
  Claim C8 at a failing input. The example of the claim groups as it says. A record
  whose department is called \<^verbatim>\<open>constructor\<close> makes the grouping throw: the run ends in
  the fatal-error branch and sends no mail, also for the other departments.
\<close>

theorem grouping_throws:
  "groupRowsByDepartment [rec0, rec1, rec2] = Inr [(''A'', [rec0, rec2]), (''B'', [rec1])]
   \<and> groupRowsByDepartment [recProto] = Inl (TypeError ''acc[department].push is not a function'')
   \<and> groupRowsByDepartment [rec0, recProto, rec2]
      = Inl (TypeError ''acc[department].push is not a function'')
   \<and> fst (sendAttendancePerDepartment (samplePlatform (failsFor [])) [rec0, recProto, rec2] sampleEmails)
      = Fatal (TypeError ''acc[department].push is not a function'')
   \<and> attempts (snd (sendAttendancePerDepartment (samplePlatform (failsFor [])) [rec0, recProto, rec2] sampleEmails)) = []"
  by code_simp

subsection \<open>The loop over the departments\<close>

lemma attempts_append: "attempts (a @ b) = attempts a @ attempts b"
  by (induction a rule: attempts.induct) auto

lemma departmentStep_good:
  assumes "fst entry \<notin> set objectPrototypeKeys" "snd entry \<noteq> []"
  shows "\<exists>evs'. departmentStep pf em entry (c, evs) = Inr (stepAfter pf em entry c, evs')
            \<and> attempts evs' = attempts evs @ (if noMapping em (fst entry) then [] else [mailFor pf em entry])"
proof (cases "map_of em (fst entry)")
  case None
  with assms show ?thesis
    by (simp add: departmentStep_def objGet_def Let_def noMapping_def stepAfter_def attempts_append)
next
  case (Some r)
  show ?thesis
  proof (cases "r = [] \<or> jsTrim r = []")
    case True
    with Some assms show ?thesis
      by (simp add: departmentStep_def objGet_def Let_def noMapping_def stepAfter_def attempts_append)
  next
    case False
    with Some assms show ?thesis
      by (cases "mailApp pf (mailFor pf em entry)")
         (simp_all add: departmentStep_def objGet_def Let_def noMapping_def stepAfter_def
            attempts_append mailFor_def)
  qed
qed

lemma departmentLoop_good:
  assumes "\<forall>e\<in>set es. fst e \<notin> set objectPrototypeKeys \<and> snd e \<noteq> []"
  shows "\<exists>c evs. departmentLoop pf em es (c0, evs0) = (None, c, evs)
     \<and> departmentsProcessed c = departmentsProcessed c0 + length es
     \<and> departmentsSkippedNoData c = departmentsSkippedNoData c0
     \<and> departmentsSkippedNoEmail c
         = departmentsSkippedNoEmail c0 + length (filter (\<lambda>e. noMapping em (fst e)) es)
     \<and> emailsSent c
         = emailsSent c0 + length (filter (\<lambda>e. \<not> noMapping em (fst e)
                                      \<and> mailApp pf (mailFor pf em e) = None) es)
     \<and> attempts evs
         = attempts evs0 @ map (mailFor pf em) (filter (\<lambda>e. \<not> noMapping em (fst e)) es)"
  using assms
proof (induction es arbitrary: c0 evs0)
  case Nil
  then show ?case by simp
next
  case (Cons e es)
  from Cons.prems have e: "fst e \<notin> set objectPrototypeKeys" "snd e \<noteq> []" by auto
  from departmentStep_good [OF e, of pf em c0 evs0] obtain evs1 where
    s: "departmentStep pf em e (c0, evs0) = Inr (stepAfter pf em e c0, evs1)"
    and a: "attempts evs1 = attempts evs0 @ (if noMapping em (fst e) then [] else [mailFor pf em e])"
    by blast
  from Cons.prems have rest: "\<forall>e\<in>set es. fst e \<notin> set objectPrototypeKeys \<and> snd e \<noteq> []" by simp
  from Cons.IH [OF rest, of "stepAfter pf em e c0" evs1] obtain c evs where
    l: "departmentLoop pf em es (stepAfter pf em e c0, evs1) = (None, c, evs)"
    and p: "departmentsProcessed c = departmentsProcessed (stepAfter pf em e c0) + length es"
    and nd: "departmentsSkippedNoData c = departmentsSkippedNoData (stepAfter pf em e c0)"
    and ne: "departmentsSkippedNoEmail c = departmentsSkippedNoEmail (stepAfter pf em e c0)
               + length (filter (\<lambda>e. noMapping em (fst e)) es)"
    and se: "emailsSent c = emailsSent (stepAfter pf em e c0)
               + length (filter (\<lambda>e. \<not> noMapping em (fst e) \<and> mailApp pf (mailFor pf em e) = None) es)"
    and at: "attempts evs = attempts evs1 @ map (mailFor pf em) (filter (\<lambda>e. \<not> noMapping em (fst e)) es)"
    by blast
  have "departmentLoop pf em (e # es) (c0, evs0) = (None, c, evs)" using s l by simp
  moreover have "departmentsProcessed c = departmentsProcessed c0 + length (e # es)"
    using p by (simp add: stepAfter_def)
  moreover have "departmentsSkippedNoData c = departmentsSkippedNoData c0"
    using nd by (simp add: stepAfter_def)
  moreover have "departmentsSkippedNoEmail c
         = departmentsSkippedNoEmail c0 + length (filter (\<lambda>e. noMapping em (fst e)) (e # es))"
    using ne by (simp add: stepAfter_def)
  moreover have "emailsSent c
         = emailsSent c0 + length (filter (\<lambda>e. \<not> noMapping em (fst e)
                                      \<and> mailApp pf (mailFor pf em e) = None) (e # es))"
    using se by (simp add: stepAfter_def)
  moreover have "attempts evs
         = attempts evs0 @ map (mailFor pf em) (filter (\<lambda>e. \<not> noMapping em (fst e)) (e # es))"
    using at a by simp
  ultimately show ?case by blast
qed

lemma set_objectEntries: "set (objectEntries g) = set g"
  by (auto simp: objectEntries_def)

lemma length_objectEntries: "length (objectEntries g) = length g"
proof -
  have "length (filter (\<lambda>(k, v). isArrayIndex k) g) + length (filter (\<lambda>(k, v). \<not> isArrayIndex k) g)
        = length g"
    using sum_length_filter_compl [of "\<lambda>(k, v). isArrayIndex k" g]
    by (simp add: case_prod_unfold)
  then show ?thesis by (simp add: objectEntries_def)
qed

lemma goodDict_entries:
  assumes "goodDict g"
  shows "\<forall>e\<in>set (objectEntries g). fst e \<notin> set objectPrototypeKeys \<and> snd e \<noteq> []"
  using assms by (auto simp: set_objectEntries goodDict_def list_all_iff)

lemma groupRows_good:
  assumes "groupRowsByDepartment rows = Inr g"
  shows "goodDict g"
  using assms reduceRows_good [OF goodDict_empty] by (simp add: groupRowsByDepartment_def)

lemma run_completed:
  assumes "rows \<noteq> []" "groupRowsByDepartment rows = Inr g"
  shows "\<exists>c evs. sendAttendancePerDepartment pf rows em = (Completed c, evs)
     \<and> departmentsProcessed c = length g
     \<and> departmentsSkippedNoData c = 0
     \<and> departmentsSkippedNoEmail c = length (filter (\<lambda>e. noMapping em (fst e)) (objectEntries g))
     \<and> emailsSent c = length (filter (\<lambda>e. \<not> noMapping em (fst e)
                                      \<and> mailApp pf (mailFor pf em e) = None) (objectEntries g))
     \<and> attempts evs = map (mailFor pf em) (filter (\<lambda>e. \<not> noMapping em (fst e)) (objectEntries g))"
proof -
  let ?c0 = "\<lparr>departmentsProcessed = 0, emailsSent = 0, departmentsSkippedNoData = 0,
              departmentsSkippedNoEmail = 0\<rparr>"
  from departmentLoop_good [OF goodDict_entries [OF groupRows_good [OF assms(2)]], of pf em ?c0 "[]"]
  obtain c evs where
    l: "departmentLoop pf em (objectEntries g) (?c0, []) = (None, c, evs)"
    and p: "departmentsProcessed c = length (objectEntries g)"
    and nd: "departmentsSkippedNoData c = 0"
    and ne: "departmentsSkippedNoEmail c = length (filter (\<lambda>e. noMapping em (fst e)) (objectEntries g))"
    and se: "emailsSent c = length (filter (\<lambda>e. \<not> noMapping em (fst e)
                                      \<and> mailApp pf (mailFor pf em e) = None) (objectEntries g))"
    and at: "attempts evs = map (mailFor pf em) (filter (\<lambda>e. \<not> noMapping em (fst e)) (objectEntries g))"
    by auto
  have "fst (sendAttendancePerDepartment pf rows em) = Completed c"
    using assms l by (simp add: sendAttendancePerDepartment_def)
  moreover have "attempts (snd (sendAttendancePerDepartment pf rows em)) = attempts evs"
    using assms l by (simp add: sendAttendancePerDepartment_def attempts_append)
  ultimately show ?thesis using p nd ne se at
    by (metis length_objectEntries prod.collapse)
qed

lemma sample_run:
  "sampleRecords \<noteq> []
   \<and> groupRowsByDepartment sampleRecords
       = Inr [(''A'', [rec0, rec2]), (''B'', [rec1]), (''C'', [mkRecord ''C'' ''Cy'' ''1''])]
   \<and> fst (sendAttendancePerDepartment (samplePlatform (failsFor ''a@x.com'')) sampleRecords sampleEmails)
       = Completed \<lparr>departmentsProcessed = 3, emailsSent = 1, departmentsSkippedNoData = 0,
                    departmentsSkippedNoEmail = 1\<rparr>
   \<and> map mailTo (attempts (snd (sendAttendancePerDepartment (samplePlatform (failsFor ''a@x.com''))
          sampleRecords sampleEmails))) = [''a@x.com'', ''b@x.com'']"
  by code_simp

text \<open>
  Claim C9: in a run that reaches the loop, every department of the grouping is
  processed, whatever the transport does. The sends attempted are those for the
  departments with a non-blank mapping, one each and in order; a department without a
  mapping, or with a blank one, gets no attempt and adds exactly one to the
  skipped-no-email count; a failed send only leaves the sent count as it is.
\<close>

theorem mailer_loop:
  assumes "attendanceData \<noteq> []" "groupRowsByDepartment attendanceData = Inr groupedData"
  shows "\<exists>c evs. sendAttendancePerDepartment pf attendanceData deptEmailsMap = (Completed c, evs)
     \<and> departmentsProcessed c = length (objectKeys groupedData)
     \<and> departmentsSkippedNoEmail c
         = length (filter (\<lambda>e. noMapping deptEmailsMap (fst e)) (objectEntries groupedData))
     \<and> attempts evs
         = map (mailFor pf deptEmailsMap)
             (filter (\<lambda>e. \<not> noMapping deptEmailsMap (fst e)) (objectEntries groupedData))
     \<and> emailsSent c
         = length (filter (\<lambda>e. \<not> noMapping deptEmailsMap (fst e)
                              \<and> mailApp pf (mailFor pf deptEmailsMap e) = None)
                     (objectEntries groupedData))"
  using run_completed [OF assms, of pf deptEmailsMap]
  by (auto simp: objectKeys_def length_objectEntries)

text \<open>Claim C9 at the sample run: the send for \<^verbatim>\<open>A\<close> fails, \<^verbatim>\<open>B\<close> is sent, \<^verbatim>\<open>C\<close> is skipped.\<close>

theorem mailer_loop_witness:
  "sampleRecords \<noteq> []
   \<and> groupRowsByDepartment sampleRecords
       = Inr [(''A'', [rec0, rec2]), (''B'', [rec1]), (''C'', [mkRecord ''C'' ''Cy'' ''1''])]
   \<and> (\<exists>c evs. sendAttendancePerDepartment (samplePlatform (failsFor ''a@x.com'')) sampleRecords sampleEmails
          = (Completed c, evs))
   \<and> fst (sendAttendancePerDepartment (samplePlatform (failsFor ''a@x.com'')) sampleRecords sampleEmails)
       = Completed \<lparr>departmentsProcessed = 3, emailsSent = 1, departmentsSkippedNoData = 0,
                    departmentsSkippedNoEmail = 1\<rparr>
   \<and> map mailTo (attempts (snd (sendAttendancePerDepartment (samplePlatform (failsFor ''a@x.com''))
          sampleRecords sampleEmails))) = [''a@x.com'', ''b@x.com'']"
proof -
  have ne: "sampleRecords \<noteq> []" using sample_run by blast
  have g: "groupRowsByDepartment sampleRecords
       = Inr [(''A'', [rec0, rec2]), (''B'', [rec1]), (''C'', [mkRecord ''C'' ''Cy'' ''1''])]"
    using sample_run by blast
  from mailer_loop [OF ne g, of "samplePlatform (failsFor ''a@x.com'')" sampleEmails]
  have "\<exists>c evs. sendAttendancePerDepartment (samplePlatform (failsFor ''a@x.com'')) sampleRecords sampleEmails
          = (Completed c, evs)" by blast
  with sample_run show ?thesis by blast
qed

text \<open>
  Claim C10: every name the grouping holds has at least one record, so the test of the
  skipped-no-data branch is false for every department of the loop; and a run either
  had no records at all, or ended in the fatal-error branch because the grouping
  threw, or completed with a skipped-no-data count of zero.
\<close>

theorem no_data_branch_unreachable:
  "(groupRowsByDepartment attendanceData = Inr groupedData
      \<longrightarrow> list_all (\<lambda>entry. length (snd entry) \<noteq> 0) (objectEntries groupedData))
   \<and> (case fst (sendAttendancePerDepartment pf attendanceData deptEmailsMap) of
         Completed c \<Rightarrow> departmentsSkippedNoData c = 0
       | NoAttendanceData \<Rightarrow> attendanceData = []
       | Fatal e \<Rightarrow> groupRowsByDepartment attendanceData = Inl e)"
proof (intro conjI impI)
  assume "groupRowsByDepartment attendanceData = Inr groupedData"
  from goodDict_entries [OF groupRows_good [OF this]]
  show "list_all (\<lambda>entry. length (snd entry) \<noteq> 0) (objectEntries groupedData)"
    by (simp add: list_all_iff)
next
  show "case fst (sendAttendancePerDepartment pf attendanceData deptEmailsMap) of
         Completed c \<Rightarrow> departmentsSkippedNoData c = 0
       | NoAttendanceData \<Rightarrow> attendanceData = []
       | Fatal e \<Rightarrow> groupRowsByDepartment attendanceData = Inl e"
  proof (cases "attendanceData = []")
    case True
    then show ?thesis by (simp add: sendAttendancePerDepartment_def)
  next
    case False
    show ?thesis
    proof (cases "groupRowsByDepartment attendanceData")
      case (Inl e)
      with False show ?thesis by (simp add: sendAttendancePerDepartment_def)
    next
      case (Inr g)
      from run_completed [OF False Inr, of pf deptEmailsMap] show ?thesis by auto
    qed
  qed
qed

text \<open>Claim C10 at the sample run.\<close>

theorem no_data_branch_unreachable_witness:
  "groupRowsByDepartment sampleRecords
       = Inr [(''A'', [rec0, rec2]), (''B'', [rec1]), (''C'', [mkRecord ''C'' ''Cy'' ''1''])]
   \<and> list_all (\<lambda>entry. length (snd entry) \<noteq> 0)
        (objectEntries [(''A'', [rec0, rec2]), (''B'', [rec1]), (''C'', [mkRecord ''C'' ''Cy'' ''1''])])
   \<and> fst (sendAttendancePerDepartment (samplePlatform (failsFor ''a@x.com'')) sampleRecords sampleEmails)
       = Completed \<lparr>departmentsProcessed = 3, emailsSent = 1, departmentsSkippedNoData = 0,
                    departmentsSkippedNoEmail = 1\<rparr>"
proof -
  have g: "groupRowsByDepartment sampleRecords
       = Inr [(''A'', [rec0, rec2]), (''B'', [rec1]), (''C'', [mkRecord ''C'' ''Cy'' ''1''])]"
    using sample_run by blast
  from no_data_branch_unreachable [of sampleRecords
      "[(''A'', [rec0, rec2]), (''B'', [rec1]), (''C'', [mkRecord ''C'' ''Cy'' ''1''])]"
      "samplePlatform (failsFor ''a@x.com'')" sampleEmails] g
  have "list_all (\<lambda>entry. length (snd entry) \<noteq> 0)
        (objectEntries [(''A'', [rec0, rec2]), (''B'', [rec1]), (''C'', [mkRecord ''C'' ''Cy'' ''1''])])"
    by blast
  with sample_run show ?thesis by blast
qed

section \<open>Properties of the attachment text\<close>

subsection \<open>The reader on the text of the serializer\<close>

lemma chars_distinct: "dq \<noteq> CHR '',''" "dq \<noteq> nl" "nl \<noteq> CHR '',''"
  by (simp_all add: dq_def nl_def)

lemma scan_unquoted:
  assumes "CHR '','' \<notin> set w" "nl \<notin> set w" "c = CHR '','' \<or> c = nl"
  shows "csvScan Unquoted cur flds rows (w @ c # rest) = fieldEnd c (cur @ w) flds rows rest"
  using assms
proof (induction w arbitrary: cur)
  case Nil
  then show ?case using chars_distinct by (auto simp: fieldEnd_def)
next
  case (Cons x w)
  from Cons.prems have x: "x \<noteq> CHR '',''" "x \<noteq> nl" by auto
  from Cons have "csvScan Unquoted (cur @ [x]) flds rows (w @ c # rest)
      = fieldEnd c ((cur @ [x]) @ w) flds rows rest" by simp
  with x show ?case by simp
qed

lemma scan_quoted:
  assumes "c = CHR '','' \<or> c = nl"
  shows "csvScan Quoted cur flds rows (doubleQuotes w @ dq # c # rest) = fieldEnd c (cur @ w) flds rows rest"
proof (induction w arbitrary: cur)
  case Nil
  then show ?case using assms chars_distinct by (auto simp: fieldEnd_def doubleQuotes_def)
next
  case (Cons x w)
  show ?case
  proof (cases "x = dq")
    case True
    have "doubleQuotes (dq # w) = dq # dq # doubleQuotes w" by (simp add: doubleQuotes_def)
    then show ?thesis using Cons [of "cur @ [dq]"] by (simp add: True)
  next
    case False
    then have "doubleQuotes (x # w) = x # doubleQuotes w" by (simp add: doubleQuotes_def)
    then show ?thesis using Cons [of "cur @ [x]"] False by simp
  qed
qed

lemma scan_field:
  assumes "csvSafe v" "c = CHR '','' \<or> c = nl"
  shows "csvScan FieldStart [] flds rows (csvValue v @ c # rest) = fieldEnd c v flds rows rest"
proof (cases "CHR '','' \<in> set v \<or> nl \<in> set v")
  case True
  then have "csvValue v @ c # rest = dq # doubleQuotes v @ dq # c # rest"
    by (simp add: csvValue_def quoted_def)
  then show ?thesis using scan_quoted [OF assms(2), of "[]" flds rows v rest] by simp
next
  case False
  then have cv: "csvValue v = v" by (simp add: csvValue_def)
  show ?thesis
  proof (cases v)
    case Nil
    then show ?thesis using assms(2) cv chars_distinct by (auto simp: fieldEnd_def)
  next
    case (Cons x w)
    with False assms(1) have x: "x \<noteq> dq" "x \<noteq> CHR '',''" "x \<noteq> nl"
      and w: "CHR '','' \<notin> set w" "nl \<notin> set w"
      by (auto simp: csvSafe_def)
    from cv have "csvValue (x # w) = x # w" by (simp add: Cons)
    with scan_unquoted [OF w assms(2), of "[x]" flds rows rest] x
    show ?thesis by (simp add: Cons)
  qed
qed

lemma scan_line:
  assumes "vs \<noteq> []" "\<forall>v\<in>set vs. csvSafe v"
  shows "csvScan FieldStart [] flds rows (joinWith '','' (map csvValue vs) @ nl # rest)
       = csvScan FieldStart [] [] (rows @ [flds @ vs]) rest"
  using assms
proof (induction vs arbitrary: flds)
  case Nil
  then show ?case by simp
next
  case (Cons v vs)
  show ?case
  proof (cases vs)
    case Nil
    from scan_field [of v nl flds rows rest] Cons.prems chars_distinct
    show ?thesis by (simp add: Nil fieldEnd_def)
  next
    case (Cons v2 vs2)
    have "csvScan FieldStart [] flds rows (csvValue v @ CHR '','' # (joinWith '','' (map csvValue vs) @ nl # rest))
        = csvScan FieldStart [] (flds @ [v]) rows (joinWith '','' (map csvValue vs) @ nl # rest)"
      using scan_field [of v "CHR '',''" flds rows] Cons.prems by (simp add: fieldEnd_def)
    moreover have "csvScan FieldStart [] (flds @ [v]) rows (joinWith '','' (map csvValue vs) @ nl # rest)
        = csvScan FieldStart [] [] (rows @ [(flds @ [v]) @ vs]) rest"
      using Cons.IH [of "flds @ [v]"] Cons.prems Cons by simp
    ultimately show ?thesis by (simp add: Cons)
  qed
qed

lemma values_of_keys:
  "map (\<lambda>header. csvValue (case getProp row header of Some v \<Rightarrow> v | None \<Rightarrow> [])) (keysOf r)
     = map csvValue (recordValues row)"
  by (simp add: keysOf_def entries_def getProp_def recordValues_def)

lemma csvLine_values:
  "csvLine (keysOf r) row = joinWith '','' (map csvValue (recordValues row)) @ [nl]"
  by (simp only: csvLine_def values_of_keys)

lemma recordValues_nonempty: "recordValues row \<noteq> []"
  by (simp add: recordValues_def entries_def)

lemma scan_lines:
  assumes "\<forall>row\<in>set rs. \<forall>v\<in>set (recordValues row). csvSafe v"
  shows "csvScan FieldStart [] [] rows (concat (map (csvLine (keysOf r)) rs)) = rows @ map recordValues rs"
  using assms
proof (induction rs arbitrary: rows)
  case Nil
  then show ?case by simp
next
  case (Cons row rs)
  have "csvScan FieldStart [] [] rows (csvLine (keysOf r) row @ concat (map (csvLine (keysOf r)) rs))
      = csvScan FieldStart [] [] (rows @ [recordValues row]) (concat (map (csvLine (keysOf r)) rs))"
    using scan_line [OF recordValues_nonempty, of row "[]" rows] Cons.prems
    by (simp add: csvLine_values)
  then show ?case using Cons.IH [of "rows @ [recordValues row]"] Cons.prems by simp
qed

lemma keys_plain: "map csvValue (keysOf r) = keysOf r \<and> (\<forall>k\<in>set (keysOf r). csvSafe k) \<and> keysOf r \<noteq> []"
  by (simp add: keysOf_def entries_def csvValue_def csvSafe_def nl_def dq_def)

lemma foldl_append_concat:
  "foldl (\<lambda>acc x. acc @ f x) init xs = init @ concat (map f xs)"
  by (induction xs arbitrary: init) simp_all

text \<open>
  The round trip on the values that are safe: if every value of every record is \<open>csvSafe\<close>,
  the text the serializer writes for a non-empty list of records, read by the standard
  rules, is the table of the records: the line of the names, then one line of values for
  each record, in order.
\<close>

theorem csv_roundtrip:
  assumes "rows \<noteq> []" "\<forall>row\<in>set rows. \<forall>v\<in>set (recordValues row). csvSafe v"
  shows "parseCsv (csvText rows) = recordTable rows"
proof -
  let ?ks = "keysOf (hd rows)"
  have t: "csvText rows = joinWith '','' (map csvValue ?ks) @ nl # concat (map (csvLine ?ks) rows)"
    using keys_plain [of "hd rows"] by (simp add: csvText_def Let_def foldl_append_concat)
  have "csvScan FieldStart [] [] [] (csvText rows)
      = csvScan FieldStart [] [] ([] @ [[] @ ?ks]) (concat (map (csvLine ?ks) rows))"
    unfolding t using keys_plain [of "hd rows"] by (intro scan_line) auto
  also have "\<dots> = [?ks] @ map recordValues rows"
    using scan_lines [OF assms(2), of "[?ks]" "hd rows"] by simp
  finally show ?thesis by (simp add: parseCsv_def recordTable_def)
qed

theorem csv_roundtrip_witness:
  "[rec0, rec2] \<noteq> [] \<and> csvSafe (Name rec2) \<and> CHR '','' \<in> set (Name rec2)
   \<and> parseCsv (csvText [rec0, rec2]) = recordTable [rec0, rec2]"
proof -
  have s: "\<forall>row\<in>set [rec0, rec2]. \<forall>v\<in>set (recordValues row). csvSafe v" by code_simp
  have n: "csvSafe (Name rec2) \<and> CHR '','' \<in> set (Name rec2)" by code_simp
  from csv_roundtrip [OF _ s] n show ?thesis by simp
qed

subsection \<open>A value that does not come back\<close>

text \<open>
  Claim C2 at a failing input. The record \<open>recQuoted\<close> has the name \<^verbatim>\<open>"Bob"\<close>, written
  with its double quotes. The name holds no comma and no line feed, so the serializer
  writes it as it is; read back by the standard rules the field is a quoted field with
  the content \<^verbatim>\<open>Bob\<close>: the quotes of the value are lost. Values with a comma, as in
  \<open>rec2\<close>, do come back.
\<close>

theorem csv_quoted_value_lost:
  "csvLine (keysOf recQuoted) recQuoted = ''A,'' @ quoted ''Bob'' @ '',E-1,5,5,5,,0,1'' @ [nl]
   \<and> parseCsv (csvText [recQuoted])
       = [keysOf recQuoted, [''A'', ''Bob'', ''E-1'', ''5'', ''5'', ''5'', [], ''0'', ''1'']]
   \<and> recordTable [recQuoted]
       = [keysOf recQuoted, [''A'', quoted ''Bob'', ''E-1'', ''5'', ''5'', ''5'', [], ''0'', ''1'']]
   \<and> parseCsv (csvText [recQuoted]) \<noteq> recordTable [recQuoted]
   \<and> parseCsv (csvText [rec0, rec2]) = recordTable [rec0, rec2]"
  by code_simp

section \<open>Properties of the table cells\<close>






end

